theory Spec2Isabelle
  imports Complex_Main "HOL-Library.Sublist"
begin

chapter \<open>The VlSU schedule bot: calendar resolver and schedule normalizer\<close>

section \<open>Calendar resolver (app/bot.py)\<close>

subsection \<open>Python's \<open>datetime.date\<close>\<close>

text \<open>
  A \<open>date\<close> object holds a year, a month and a day of the proleptic Gregorian
  calendar. Comparison is the comparison of the triples, \<open>toordinal\<close> counts days
  from 0001-01-01 (ordinal 1), the difference of two dates is the difference of
  their ordinals, and \<open>isoweekday\<close> is \<open>toordinal() % 7 or 7\<close>.
\<close>

record date =
  year :: int
  month :: int
  day_of_month :: int

definition mk_date :: "int \<Rightarrow> int \<Rightarrow> int \<Rightarrow> date" where
  "mk_date y m d = \<lparr>year = y, month = m, day_of_month = d\<rparr>"

definition date_le :: "date \<Rightarrow> date \<Rightarrow> bool" where
  "date_le a b \<longleftrightarrow>
     year a < year b \<or>
     (year a = year b \<and> (month a < month b \<or>
        (month a = month b \<and> day_of_month a \<le> day_of_month b)))"

definition is_leap :: "int \<Rightarrow> bool" where
  "is_leap y \<longleftrightarrow> y mod 4 = 0 \<and> (y mod 100 \<noteq> 0 \<or> y mod 400 = 0)"

definition days_before_year :: "int \<Rightarrow> int" where
  "days_before_year y =
     (y - 1) * 365 + (y - 1) div 4 - (y - 1) div 100 + (y - 1) div 400"

definition month_lengths :: "int list" where
  "month_lengths = [31, 28, 31, 30, 31, 30, 31, 31, 30, 31, 30, 31]"

definition days_before_month :: "int \<Rightarrow> int \<Rightarrow> int" where
  "days_before_month y m =
     sum_list (take (nat (m - 1)) month_lengths) + (if m > 2 \<and> is_leap y then 1 else 0)"

definition toordinal :: "date \<Rightarrow> int" where
  "toordinal d = days_before_year (year d) + days_before_month (year d) (month d) + day_of_month d"

definition isoweekday :: "date \<Rightarrow> int" where
  "isoweekday d = (if toordinal d mod 7 = 0 then 7 else toordinal d mod 7)"

text \<open>\<open>(a - b).days\<close> for two dates.\<close>

definition days_between :: "date \<Rightarrow> date \<Rightarrow> int" where
  "days_between a b = toordinal a - toordinal b"

text \<open>
  The argument of \<open>get_week_status\<close> is a \<open>date\<close> or a \<open>datetime\<close> (a date with
  hour, minute, second and microsecond); the function starts by taking the date of
  a datetime.
\<close>

datatype date_arg = ADate date | ADateTime date nat nat nat nat

fun as_date :: "date_arg \<Rightarrow> date" where
  "as_date (ADate d) = d"
| "as_date (ADateTime d h mi s us) = d"

subsection \<open>Configuration\<close>

definition SEMESTER_START :: date where
  "SEMESTER_START = mk_date 2025 9 1"

definition SPECIAL_PERIODS :: "(date \<times> date \<times> string) list" where
  "SPECIAL_PERIODS =
    [(mk_date 2025 9 29, mk_date 2025 10 11, ''rc''),
     (mk_date 2025 11 10, mk_date 2025 11 22, ''rc''),
     (mk_date 2025 12 22, mk_date 2025 12 30, ''rc''),
     (mk_date 2026 3 2, mk_date 2026 3 14, ''rc''),
     (mk_date 2026 4 13, mk_date 2026 4 25, ''rc''),
     (mk_date 2026 5 25, mk_date 2026 6 6, ''rc''),
     (mk_date 2025 11 3, mk_date 2025 11 4, ''holiday''),
     (mk_date 2025 12 31, mk_date 2026 1 11, ''holiday''),
     (mk_date 2026 2 23, mk_date 2026 2 23, ''holiday''),
     (mk_date 2026 3 9, mk_date 2026 3 9, ''holiday''),
     (mk_date 2026 5 1, mk_date 2026 5 2, ''holiday''),
     (mk_date 2026 5 11, mk_date 2026 5 11, ''holiday''),
     (mk_date 2026 6 12, mk_date 2026 6 13, ''holiday''),
     (mk_date 2026 1 12, mk_date 2026 1 24, ''exam''),
     (mk_date 2026 6 9, mk_date 2026 6 30, ''exam''),
     (mk_date 2026 1 26, mk_date 2026 1 31, ''vacation'')]"

subsection \<open>\<open>get_week_status\<close>\<close>

text \<open>
  The loop \<open>for start, end, kind in SPECIAL_PERIODS: if start <= d <= end: return kind\<close>;
  \<open>None\<close> when the loop ends without returning.
\<close>

fun period_loop :: "date \<Rightarrow> (date \<times> date \<times> string) list \<Rightarrow> string option" where
  "period_loop d [] = None"
| "period_loop d ((start_d, end_d, knd) # ps) =
     (if date_le start_d d \<and> date_le d end_d then Some knd else period_loop d ps)"

definition get_week_status :: "date_arg \<Rightarrow> string" where
  "get_week_status a =
     (let d = as_date a in
      case period_loop d SPECIAL_PERIODS of
        Some knd \<Rightarrow> knd
      | None \<Rightarrow>
          if isoweekday d = 7 then ''holiday''
          else
            let week_num = (days_between d SEMESTER_START) div 7 + 1 in
            if week_num \<le> 0 then ''before''
            else
              let block = (week_num - 1) div 7 in
              if block mod 2 = 0 then ''odd'' else ''even'')"

text \<open>The seven regime tags of the calendar.\<close>

definition regimes :: "string set" where
  "regimes = {''odd'', ''even'', ''holiday'', ''vacation'', ''exam'', ''rc'', ''before''}"

section \<open>Schedule normalizer (app/vlsu_api.py)\<close>

subsection \<open>Python values\<close>

text \<open>
  A Python \<open>str\<close> is a sequence of Unicode code points; \<open>len\<close> counts code points.
  The Cyrillic literals of the source are written by their code points.
\<close>

type_synonym pystr = "int list"

definition ascii :: "string \<Rightarrow> pystr" where
  "ascii cs = map of_char cs"

text \<open>
  The values \<open>json.loads\<close> produces: \<open>None\<close>, \<open>bool\<close>, \<open>int\<close>, \<open>float\<close>, \<open>str\<close>,
  \<open>list\<close> and \<open>dict\<close> with string keys, in insertion order. A float is a real number
  or one of the three non-finite values the parser accepts.
\<close>

datatype pyfloat = Finite real | PosInf | NegInf | NaN

datatype json =
    JNull
  | JBool bool
  | JInt int
  | JFloat pyfloat
  | JStr pystr
  | JList "json list"
  | JDict "(pystr \<times> json) list"

datatype py_error = ValueError | OverflowError | AttributeError | TypeError

text \<open>
  The builtins whose result depends on the Unicode character database or on the
  float formatter are taken as parameters: \<open>str.isspace\<close> of one code point (what
  \<open>strip()\<close> removes), \<open>str.lower\<close>, the regular expression class \<open>\d\<close> on one
  code point, \<open>str.isdigit\<close>, \<open>int(s)\<close> of a string (\<open>None\<close> for ValueError) and
  \<open>repr\<close> of a float, list or dict.
\<close>

record builtins =
  isspace :: "int \<Rightarrow> bool"
  lower :: "pystr \<Rightarrow> pystr"
  is_decimal :: "int \<Rightarrow> bool"
  isdigit :: "pystr \<Rightarrow> bool"
  int_of_str :: "pystr \<Rightarrow> int option"
  repr :: "json \<Rightarrow> pystr"

text \<open>Truth value of a Python object (\<open>bool(v)\<close>).\<close>

fun truthy :: "json \<Rightarrow> bool" where
  "truthy JNull = False"
| "truthy (JBool b) = b"
| "truthy (JInt i) = (i \<noteq> 0)"
| "truthy (JFloat f) = (f \<noteq> Finite 0)"
| "truthy (JStr s) = (s \<noteq> [])"
| "truthy (JList xs) = (xs \<noteq> [])"
| "truthy (JDict d) = (d \<noteq> [])"

text \<open>\<open>k in d\<close> and \<open>d.get(k, default)\<close>.\<close>

definition has_key :: "(pystr \<times> json) list \<Rightarrow> pystr \<Rightarrow> bool" where
  "has_key d k = (map_of d k \<noteq> None)"

definition dict_get :: "(pystr \<times> json) list \<Rightarrow> pystr \<Rightarrow> json \<Rightarrow> json" where
  "dict_get d k dflt = (case map_of d k of Some v \<Rightarrow> v | None \<Rightarrow> dflt)"

text \<open>\<open>str(i)\<close> for an int.\<close>

fun digits :: "nat \<Rightarrow> pystr" where
  "digits n = (if n < 10 then [0x30 + int n] else digits (n div 10) @ [0x30 + int (n mod 10)])"

declare digits.simps [simp del]

definition str_int :: "int \<Rightarrow> pystr" where
  "str_int i = (if i < 0 then 0x2D # digits (nat (- i)) else digits (nat i))"

text \<open>\<open>str(v)\<close>.\<close>

fun py_str :: "builtins \<Rightarrow> json \<Rightarrow> pystr" where
  "py_str B (JStr s) = s"
| "py_str B JNull = ascii ''None''"
| "py_str B (JBool b) = (if b then ascii ''True'' else ascii ''False'')"
| "py_str B (JInt i) = str_int i"
| "py_str B v = repr B v"

text \<open>\<open>int(v)\<close>: truncation towards zero for a float.\<close>

fun py_int :: "builtins \<Rightarrow> json \<Rightarrow> py_error + int" where
  "py_int B (JInt i) = Inr i"
| "py_int B (JBool b) = Inr (if b then 1 else 0)"
| "py_int B (JFloat (Finite r)) = Inr (if r \<ge> 0 then \<lfloor>r\<rfloor> else \<lceil>r\<rceil>)"
| "py_int B (JFloat NaN) = Inl ValueError"
| "py_int B (JFloat PosInf) = Inl OverflowError"
| "py_int B (JFloat NegInf) = Inl OverflowError"
| "py_int B (JStr s) = (case int_of_str B s of Some i \<Rightarrow> Inr i | None \<Rightarrow> Inl ValueError)"
| "py_int B v = Inl TypeError"

text \<open>\<open>s.strip()\<close>, \<open>s.split(c)\<close> for a one-character separator, \<open>sep.join(xs)\<close>, \<open>sub in s\<close>.\<close>

definition strip :: "builtins \<Rightarrow> pystr \<Rightarrow> pystr" where
  "strip B s = rev (dropWhile (isspace B) (rev (dropWhile (isspace B) s)))"

fun split_on :: "int \<Rightarrow> pystr \<Rightarrow> pystr list" where
  "split_on c [] = [[]]"
| "split_on c (x # xs) =
     (if x = c then [] # split_on c xs
      else (case split_on c xs of p # ps \<Rightarrow> (x # p) # ps | [] \<Rightarrow> [[x]]))"

fun join :: "pystr \<Rightarrow> pystr list \<Rightarrow> pystr" where
  "join sep [] = []"
| "join sep [p] = p"
| "join sep (p # q # ps) = p @ sep @ join sep (q # ps)"

fun starts_with :: "pystr \<Rightarrow> pystr \<Rightarrow> bool" where
  "starts_with [] s = True"
| "starts_with (c # cs) [] = False"
| "starts_with (c # cs) (x # xs) = (c = x \<and> starts_with cs xs)"

fun contains :: "pystr \<Rightarrow> pystr \<Rightarrow> bool" where
  "contains sub [] = (sub = [])"
| "contains sub (x # xs) = (starts_with sub (x # xs) \<or> contains sub xs)"

subsection \<open>Week type and alias lookup\<close>

definition w_all :: pystr where "w_all = ascii ''all''"
definition w_odd :: pystr where "w_odd = ascii ''odd''"
definition w_even :: pystr where "w_even = ascii ''even''"

text \<open>The markers U+0447 U+0438 U+0441 U+043B (numerator) and U+0437 U+043D U+0430 U+043C
  (denominator).\<close>

definition chisl :: pystr where "chisl = [0x447, 0x438, 0x441, 0x43B]"
definition znam :: pystr where "znam = [0x437, 0x43D, 0x430, 0x43C]"

text \<open>\<open>isinstance(val, (int, float))\<close>; a \<open>bool\<close> is an \<open>int\<close>.\<close>

fun is_number :: "json \<Rightarrow> bool" where
  "is_number (JBool b) = True"
| "is_number (JInt i) = True"
| "is_number (JFloat f) = True"
| "is_number v = False"

definition normalize_week_type :: "builtins \<Rightarrow> json \<Rightarrow> py_error + pystr" where
  "normalize_week_type B val =
     (if val = JNull then Inr w_all
      else if is_number val then
        (case py_int B val of
           Inl e \<Rightarrow> Inl e
         | Inr v \<Rightarrow> if v = 1 then Inr w_odd else if v = 2 then Inr w_even else Inr w_all)
      else
        let s = lower B (strip B (py_str B val)) in
        if contains chisl s \<or> contains w_odd s then Inr w_odd
        else if contains znam s \<or> contains w_even s then Inr w_even
        else if s \<in> {ascii ''0'', ascii ''all'', []} then Inr w_all
        else Inr w_all)"

text \<open>\<open>_pick(d, *keys, default)\<close>: the first key present with a value other than
  \<open>None\<close> and \<open>""\<close>.\<close>

fun pick :: "(pystr \<times> json) list \<Rightarrow> pystr list \<Rightarrow> json \<Rightarrow> json" where
  "pick d [] dflt = dflt"
| "pick d (k # ks) dflt =
     (if has_key d k \<and> dict_get d k JNull \<noteq> JNull \<and> dict_get d k JNull \<noteq> JStr []
      then dict_get d k JNull else pick d ks dflt)"

subsection \<open>Lesson records\<close>

text \<open>
  The output dict with the keys \<open>day\<close>, \<open>start\<close>, \<open>end\<close>, \<open>title\<close>, \<open>teacher\<close>,
  \<open>room\<close>, \<open>kind\<close> and \<open>week\<close> (the field \<open>end_time\<close> is the key \<open>end\<close>). A value
  is \<open>JNull\<close> when the field is \<open>None\<close>.
\<close>

record lesson =
  day :: json
  start :: json
  end_time :: json
  title :: json
  teacher :: json
  room :: json
  kind :: json
  week :: pystr

text \<open>
  Results of calls made one after the other, each of which may raise and each of
  which appends records to the shared output list: the first exception, or the
  records in call order.
\<close>

fun collect :: "('e + 'a list) list \<Rightarrow> 'e + 'a list" where
  "collect [] = Inr []"
| "collect (r # rs) =
     (case r of
        Inl e \<Rightarrow> Inl e
      | Inr xs \<Rightarrow> (case collect rs of Inl e \<Rightarrow> Inl e | Inr ys \<Rightarrow> Inr (xs @ ys)))"

subsection \<open>The slotted-day format\<close>

definition PAIR_TIMES :: "(int \<times> pystr \<times> pystr) list" where
  "PAIR_TIMES =
    [(1, ascii ''08:30'', ascii ''10:00''),
     (2, ascii ''10:20'', ascii ''11:50''),
     (3, ascii ''12:10'', ascii ''13:40''),
     (4, ascii ''14:00'', ascii ''15:30''),
     (5, ascii ''15:50'', ascii ''17:20''),
     (6, ascii ''17:40'', ascii ''19:10''),
     (7, ascii ''19:30'', ascii ''21:00'')]"

text \<open>The lower-case Russian weekday names, Monday to Sunday.\<close>

definition DAY_MAP_RU :: "(pystr \<times> int) list" where
  "DAY_MAP_RU =
    [([0x43F, 0x43E, 0x43D, 0x435, 0x434, 0x435, 0x43B, 0x44C, 0x43D, 0x438, 0x43A], 1),
     ([0x432, 0x442, 0x43E, 0x440, 0x43D, 0x438, 0x43A], 2),
     ([0x441, 0x440, 0x435, 0x434, 0x430], 3),
     ([0x447, 0x435, 0x442, 0x432, 0x435, 0x440, 0x433], 4),
     ([0x43F, 0x44F, 0x442, 0x43D, 0x438, 0x446, 0x430], 5),
     ([0x441, 0x443, 0x431, 0x431, 0x43E, 0x442, 0x430], 6),
     ([0x432, 0x43E, 0x441, 0x43A, 0x440, 0x435, 0x441, 0x435, 0x43D, 0x44C, 0x435], 7)]"

definition looks_like_room :: "builtins \<Rightarrow> pystr \<Rightarrow> bool" where
  "looks_like_room B s0 =
     (let s = strip B s0 in list_ex (is_decimal B) s \<or> 0x2D \<in> set s)"

definition looks_like_teacher :: "pystr \<Rightarrow> bool" where
  "looks_like_teacher s = (0x2E \<in> set s \<and> 0x20 \<in> set s)"

text \<open>
  One scan \<open>for i, p in enumerate(parts): if i in used: continue; if ... : break\<close>:
  the first index outside \<open>used\<close> whose part satisfies the test.
\<close>

definition first_unused ::
  "(pystr \<Rightarrow> bool) \<Rightarrow> nat set \<Rightarrow> pystr list \<Rightarrow> (nat \<times> pystr) option" where
  "first_unused P used parts = List.find (\<lambda>(i, p). i \<notin> used \<and> P p) (List.enumerate 0 parts)"

definition parse_cell_text ::
  "builtins \<Rightarrow> pystr \<Rightarrow> pystr option \<times> pystr option \<times> pystr option \<times> pystr option" where
  "parse_cell_text B s =
     (if s = [] then (None, None, None, None)
      else
        let parts = filter (\<lambda>p. p \<noteq> []) (map (strip B) (split_on 0x2C s));
            (kind_v, used0) =
               (if parts \<noteq> [] \<and> length (hd parts) \<le> 3 then (Some (hd parts), {0})
                else (None, {}));
            (room_v, used1) =
               (case first_unused (looks_like_room B) used0 parts of
                  Some (i, p) \<Rightarrow> (Some p, insert i used0)
                | None \<Rightarrow> (None, used0));
            (teacher_v, used2) =
               (case first_unused looks_like_teacher used1 parts of
                  Some (i, p) \<Rightarrow> (Some p, insert i used1)
                | None \<Rightarrow> (None, used1));
            title_parts = map snd (filter (\<lambda>(i, p). i \<notin> used2) (List.enumerate 0 parts));
            title_v = (if title_parts \<noteq> [] then Some (join (ascii '', '') title_parts) else None)
        in (kind_v, room_v, teacher_v, title_v))"

text \<open>A parsed field as a record value, and its truth value.\<close>

fun opt_json :: "pystr option \<Rightarrow> json" where
  "opt_json None = JNull"
| "opt_json (Some s) = JStr s"

text \<open>
  \<open>(day_obj.get(key) or "").strip()\<close>: a true value that is not a string has no
  \<open>strip\<close> method.
\<close>

definition cell_text :: "builtins \<Rightarrow> json \<Rightarrow> py_error + pystr" where
  "cell_text B v =
     (case (if truthy v then v else JStr []) of
        JStr s \<Rightarrow> Inr (strip B s)
      | _ \<Rightarrow> Inl AttributeError)"

text \<open>The body of the two inner loops for one pair index and one key prefix.\<close>

definition slot ::
  "builtins \<Rightarrow> (pystr \<times> json) list \<Rightarrow> int \<Rightarrow> int \<times> pystr \<times> pystr \<Rightarrow> py_error + lesson list" where
  "slot B d day_num = (\<lambda>(idx, key, week_v).
     case cell_text B (dict_get d (key @ str_int idx) JNull) of
       Inl e \<Rightarrow> Inl e
     | Inr cell \<Rightarrow>
         if cell = [] then Inr []
         else
           let (kind_v, room_v, teacher_v, title_v) = parse_cell_text B cell;
               (start_v, end_v) =
                  (case map_of PAIR_TIMES idx of
                     Some (s, e) \<Rightarrow> (JStr s, JStr e)
                   | None \<Rightarrow> (JNull, JNull))
           in if \<not> (truthy (opt_json title_v) \<or> truthy (opt_json room_v) \<or>
                     truthy (opt_json teacher_v) \<or> truthy (opt_json kind_v))
              then Inr []
              else Inr [\<lparr>day = JInt day_num, start = start_v, end_time = end_v,
                         title = opt_json title_v, teacher = opt_json teacher_v,
                         room = opt_json room_v, kind = opt_json kind_v, week = week_v\<rparr>])"

text \<open>\<open>for idx in range(1, 8): for key, week in (("n", "odd"), ("z", "even"))\<close>.\<close>

definition slots :: "(int \<times> pystr \<times> pystr) list" where
  "slots = concat (map (\<lambda>idx. [(idx, ascii ''n'', w_odd), (idx, ascii ''z'', w_even)]) [1..7])"

text \<open>The body of the outer loop for one element of the list.\<close>

definition day_name_of :: "builtins \<Rightarrow> (pystr \<times> json) list \<Rightarrow> pystr" where
  "day_name_of B d = lower B (strip B (py_str B (dict_get d (ascii ''name'') (JStr []))))"

fun special_day :: "builtins \<Rightarrow> json \<Rightarrow> py_error + lesson list" where
  "special_day B (JDict d) =
     (if dict_get d (ascii ''type'') JNull \<noteq> JStr (ascii ''Lessons'') then Inr []
      else
        case map_of DAY_MAP_RU (day_name_of B d) of
          None \<Rightarrow> Inr []
        | Some day_num \<Rightarrow>
            if day_num = 0 then Inr []
            else collect (map (slot B d day_num) slots))"
| "special_day B v = Inr []"

definition normalize_special_day_array :: "builtins \<Rightarrow> json list \<Rightarrow> py_error + lesson list" where
  "normalize_special_day_array B raw = collect (map (special_day B) raw)"

subsection \<open>The generic walker\<close>

definition week_keys :: "pystr list" where
  "week_keys = map ascii [''WeekType'', ''Week'', ''WeekMode'', ''TypeWeek'']"

definition day_keys :: "pystr list" where
  "day_keys = map ascii [''Day'', ''DayOfWeek'', ''WeekDay'']"

definition start_keys :: "pystr list" where
  "start_keys = map ascii [''Start'', ''TimeStart'', ''Begin'', ''From'', ''StartTime'']"

definition end_keys :: "pystr list" where
  "end_keys = map ascii [''End'', ''TimeEnd'', ''Finish'', ''To'', ''EndTime'']"

definition title_keys :: "pystr list" where
  "title_keys = map ascii [''Title'', ''Discipline'', ''Subject'', ''Name'', ''Lesson'']"

definition teacher_keys :: "pystr list" where
  "teacher_keys = map ascii [''Teacher'', ''Lecturer'', ''Professor'', ''Prepod'', ''TeacherName'']"

definition room_keys :: "pystr list" where
  "room_keys = map ascii [''Room'', ''Audience'', ''Auditory'', ''Classroom'', ''Cabinet'', ''Aud'']"

definition kind_keys :: "pystr list" where
  "kind_keys = map ascii [''Kind'', ''Type'', ''LessonType'', ''Format'']"

text \<open>The keys tested by \<open>walk\<close> before it calls \<open>push\<close> (besides \<open>start_keys\<close>).\<close>

definition lesson_title_keys :: "pystr list" where
  "lesson_title_keys = map ascii [''Title'', ''Discipline'', ''Subject'', ''Lesson'', ''Name'']"

definition container_keys :: "pystr list" where
  "container_keys = map ascii [''Days'', ''DayItems'', ''Schedule'', ''Lessons'', ''Pairs'', ''Items'']"

definition week_variant_keys :: "(pystr \<times> pystr) list" where
  "week_variant_keys =
     [(ascii ''All'', w_all), (ascii ''Numerator'', w_odd), (ascii ''Odd'', w_odd),
      (ascii ''Denominator'', w_even), (ascii ''Even'', w_even)]"

text \<open>
  \<open>push\<close>: the records it appends to \<open>lessons\<close> (none or one), or the exception of
  \<open>normalize_week_type\<close>. The conversion of the day is inside \<open>try\<close>; an exception
  there leaves the day as it is.
\<close>

fun push :: "builtins \<Rightarrow> json \<Rightarrow> json \<Rightarrow> json \<Rightarrow> py_error + lesson list" where
  "push B (JDict item) ctx_day ctx_week =
     (case normalize_week_type B (pick item week_keys ctx_week) of
        Inl e \<Rightarrow> Inl e
      | Inr week_v \<Rightarrow>
          let day_v = pick item day_keys ctx_day;
              start_v = pick item start_keys JNull;
              end_v = pick item end_keys JNull;
              title_v = pick item title_keys JNull;
              teacher_v = pick item teacher_keys JNull;
              room_v = pick item room_keys JNull;
              kind_v = pick item kind_keys JNull
          in
            if \<not> (truthy title_v \<or> truthy room_v \<or> truthy teacher_v \<or> truthy start_v \<or>
                   truthy end_v)
            then Inr []
            else
              let day_val =
                    (if isdigit B (py_str B day_v)
                     then (case py_int B day_v of Inr i \<Rightarrow> JInt i | Inl e \<Rightarrow> day_v)
                     else day_v)
              in Inr [\<lparr>day = day_val, start = start_v, end_time = end_v, title = title_v,
                        teacher = teacher_v, room = room_v, kind = kind_v, week = week_v\<rparr>])"
| "push B item ctx_day ctx_week = Inr []"

text \<open>\<open>isinstance(v, (dict, list))\<close>.\<close>

fun is_container :: "json \<Rightarrow> bool" where
  "is_container (JList xs) = True"
| "is_container (JDict d) = True"
| "is_container v = False"

lemma size_entry: "(k, v) \<in> set d \<Longrightarrow> size v < size (JDict d)"
  by (induction d) auto

lemma size_map_of: "map_of d k = Some v \<Longrightarrow> size v < size (JDict d)"
  by (rule size_entry) (erule map_of_SomeD)

lemma size_elems: "x \<in> set xs \<Longrightarrow> size x < size (JList xs)"
  by (induction xs) auto

text \<open>
  \<open>walk\<close>: the records appended to \<open>lessons\<close> by the call, in order, or the first
  exception. For a dict: the call of \<open>push\<close>, then the loop over the container
  keys, then the loop over the week-variant keys, then the loop over all values.
  The recursion follows the nesting of the input; the interpreter's recursion
  limit is not modelled.
\<close>

function walk :: "builtins \<Rightarrow> json \<Rightarrow> json \<Rightarrow> json \<Rightarrow> py_error + lesson list" where
  "walk B (JList xs) ctx_day ctx_week = collect (map (\<lambda>x. walk B x ctx_day ctx_week) xs)"
| "walk B (JDict node) ctx_day ctx_week =
     (let new_day = pick node day_keys ctx_day;
          new_week = pick node week_keys ctx_week
      in collect
        ([if list_ex (has_key node) start_keys \<or> list_ex (has_key node) lesson_title_keys
          then push B (JDict node) ctx_day ctx_week else Inr []]
         @ map (\<lambda>key. case map_of node key of
                        Some v \<Rightarrow> walk B v new_day new_week
                      | None \<Rightarrow> Inr []) container_keys
         @ map (\<lambda>(key, w). case map_of node key of
                        Some v \<Rightarrow> walk B v ctx_day (JStr w)
                      | None \<Rightarrow> Inr []) week_variant_keys
         @ map (\<lambda>v. if is_container v then walk B v new_day new_week else Inr [])
             (map snd node)))"
| "walk B JNull ctx_day ctx_week = Inr []"
| "walk B (JBool b) ctx_day ctx_week = Inr []"
| "walk B (JInt i) ctx_day ctx_week = Inr []"
| "walk B (JFloat f) ctx_day ctx_week = Inr []"
| "walk B (JStr s) ctx_day ctx_week = Inr []"
  by pat_completeness auto
termination
  by (relation "measure (\<lambda>(B, node, ctx_day, ctx_week). size node)")
     (auto simp del: json.size simp: size_map_of size_entry size_elems)

subsection \<open>Removal of duplicates\<close>

text \<open>
  The key tuple of a record is looked up in the set \<open>seen\<close>. A list or a dict
  cannot be hashed (TypeError). Two keys are the same member when their components
  are equal under \<open>==\<close>, which compares \<open>bool\<close>, \<open>int\<close> and \<open>float\<close> by numeric value.
  (The JSON parser returns one object for every \<open>NaN\<close>, and a tuple compares its
  components by identity first, so a \<open>NaN\<close> component equals itself here.)
\<close>

fun hashable :: "json \<Rightarrow> bool" where
  "hashable (JList xs) = False"
| "hashable (JDict d) = False"
| "hashable v = True"

fun num_val :: "json \<Rightarrow> real option" where
  "num_val (JBool b) = Some (if b then 1 else 0)"
| "num_val (JInt i) = Some (real_of_int i)"
| "num_val (JFloat (Finite r)) = Some r"
| "num_val v = None"

definition py_eq :: "json \<Rightarrow> json \<Rightarrow> bool" where
  "py_eq a b =
     (case (num_val a, num_val b) of
        (Some x, Some y) \<Rightarrow> x = y
      | (None, None) \<Rightarrow> a = b
      | _ \<Rightarrow> False)"

definition lesson_key :: "lesson \<Rightarrow> json list" where
  "lesson_key l = [day l, start l, end_time l, title l, teacher l, room l, kind l, JStr (week l)]"

definition key_eq :: "json list \<Rightarrow> json list \<Rightarrow> bool" where
  "key_eq k1 k2 = list_all2 py_eq k1 k2"

fun dedup_loop :: "json list list \<Rightarrow> lesson list \<Rightarrow> lesson list \<Rightarrow> py_error + lesson list" where
  "dedup_loop seen uniq [] = Inr uniq"
| "dedup_loop seen uniq (l # ls) =
     (if \<not> list_all hashable (lesson_key l) then Inl TypeError
      else if list_ex (key_eq (lesson_key l)) seen then dedup_loop seen uniq ls
      else dedup_loop (lesson_key l # seen) (uniq @ [l]) ls)"

subsection \<open>\<open>normalize_schedule\<close>\<close>

text \<open>\<open>isinstance(x, dict) and ("n1" in x or "z1" in x)\<close>.\<close>

fun has_slot_keys :: "json \<Rightarrow> bool" where
  "has_slot_keys (JDict x) = (has_key x (ascii ''n1'') \<or> has_key x (ascii ''z1''))"
| "has_slot_keys v = False"

fun is_special :: "json \<Rightarrow> bool" where
  "is_special (JList xs) = list_ex has_slot_keys xs"
| "is_special v = False"

fun normalize_schedule :: "builtins \<Rightarrow> json \<Rightarrow> py_error + lesson list" where
  "normalize_schedule B raw =
     (if is_special raw then
        (case raw of JList xs \<Rightarrow> normalize_special_day_array B xs | _ \<Rightarrow> Inr [])
      else
        case walk B raw JNull JNull of
          Inl e \<Rightarrow> Inl e
        | Inr lessons \<Rightarrow> dedup_loop [] [] lessons)"

subsection \<open>The builtins on Basic Latin and Cyrillic text\<close>

text \<open>
  For evaluation on concrete inputs: the builtins as they act on text of the
  Basic Latin block and the Cyrillic letters U+0400..U+045F. The white-space code
  points are those of \<open>str.isspace\<close>; the only decimal digits of these blocks are
  \<open>0\<close>..\<open>9\<close>; \<open>lower\<close> maps A..Z and U+0400..U+042F to their lower-case letters.
  \<open>repr\<close> of a float, list or dict is not modelled (the concrete inputs below never
  take \<open>str()\<close> of such a value).
\<close>

definition basic_isspace :: "int \<Rightarrow> bool" where
  "basic_isspace c \<longleftrightarrow>
     (0x09 \<le> c \<and> c \<le> 0x0D) \<or> (0x1C \<le> c \<and> c \<le> 0x20) \<or> c = 0x85 \<or> c = 0xA0 \<or>
     c = 0x1680 \<or> (0x2000 \<le> c \<and> c \<le> 0x200A) \<or> c = 0x2028 \<or> c = 0x2029 \<or>
     c = 0x202F \<or> c = 0x205F \<or> c = 0x3000"

definition basic_lower_cp :: "int \<Rightarrow> int" where
  "basic_lower_cp c =
     (if 0x41 \<le> c \<and> c \<le> 0x5A then c + 0x20
      else if 0x410 \<le> c \<and> c \<le> 0x42F then c + 0x20
      else if 0x400 \<le> c \<and> c \<le> 0x40F then c + 0x50
      else c)"

definition basic_is_decimal :: "int \<Rightarrow> bool" where
  "basic_is_decimal c \<longleftrightarrow> 0x30 \<le> c \<and> c \<le> 0x39"

definition basic_isdigit :: "pystr \<Rightarrow> bool" where
  "basic_isdigit s \<longleftrightarrow> s \<noteq> [] \<and> list_all basic_is_decimal s"

definition basic_int_of_str :: "pystr \<Rightarrow> int option" where
  "basic_int_of_str s =
     (if basic_isdigit s then Some (foldl (\<lambda>a c. 10 * a + (c - 0x30)) 0 s) else None)"

definition basic_builtins :: builtins where
  "basic_builtins =
     \<lparr>isspace = basic_isspace, lower = map basic_lower_cp, is_decimal = basic_is_decimal,
      isdigit = basic_isdigit, int_of_str = basic_int_of_str, repr = (\<lambda>v. [])\<rparr>"

subsection \<open>Orders and record shapes used in the statements\<close>

text \<open>\<open>s <= t\<close> on strings: the lexicographic order of the code points.\<close>

fun str_le :: "pystr \<Rightarrow> pystr \<Rightarrow> bool" where
  "str_le [] ys = True"
| "str_le (x # xs) [] = False"
| "str_le (x # xs) (y # ys) = (x < y \<or> (x = y \<and> str_le xs ys))"

text \<open>
  A record as the slotted-day parser builds it: the day from \<open>DAY_MAP_RU\<close>, the week
  \<open>odd\<close> or \<open>even\<close>, start and end from one entry of \<open>PAIR_TIMES\<close>.
\<close>

definition slotted_record :: "lesson \<Rightarrow> bool" where
  "slotted_record l \<longleftrightarrow>
     (\<exists>nm n. (nm, n) \<in> set DAY_MAP_RU \<and> day l = JInt n \<and> 1 \<le> n \<and> n \<le> 7) \<and>
     (week l = w_odd \<or> week l = w_even) \<and>
     (\<exists>idx s e. (idx, s, e) \<in> set PAIR_TIMES \<and> start l = JStr s \<and> end_time l = JStr e \<and>
        str_le s e)"

text \<open>The test \<open>any([title, room, teacher, start, end])\<close> of \<open>push\<close>, on a record.\<close>

definition has_content :: "lesson \<Rightarrow> bool" where
  "has_content l \<longleftrightarrow>
     truthy (title l) \<or> truthy (room l) \<or> truthy (teacher l) \<or> truthy (start l) \<or>
     truthy (end_time l)"

text \<open>Every record of a result satisfies a predicate (nothing is said of an exception).\<close>

definition all_records :: "(lesson \<Rightarrow> bool) \<Rightarrow> py_error + lesson list \<Rightarrow> bool" where
  "all_records P r = (case r of Inl e \<Rightarrow> True | Inr xs \<Rightarrow> list_all P xs)"

text \<open>No record of a list has a key equal to the key of an earlier record.\<close>

definition keys_differ :: "lesson list \<Rightarrow> bool" where
  "keys_differ xs \<longleftrightarrow>
     (\<forall>i j. i < j \<longrightarrow> j < length xs \<longrightarrow> \<not> key_eq (lesson_key (xs ! j)) (lesson_key (xs ! i)))"

text \<open>
  The records of a list that have no earlier record with an equal key, in order;
  \<open>earlier\<close> holds the records that come before the list.
\<close>

fun first_occurrences :: "lesson list \<Rightarrow> lesson list \<Rightarrow> lesson list" where
  "first_occurrences earlier [] = []"
| "first_occurrences earlier (l # ls) =
     (if list_ex (\<lambda>p. key_eq (lesson_key l) (lesson_key p)) earlier
      then first_occurrences (earlier @ [l]) ls
      else l # first_occurrences (earlier @ [l]) ls)"

subsection \<open>Shape detection as the specification words it\<close>

text \<open>
  The specification's detection: some element of the top-level list has a key of
  the index-suffixed naming convention, \<open>n1\<close>..\<open>n7\<close> or \<open>z1\<close>..\<open>z7\<close>. (The code
  tests \<open>n1\<close> and \<open>z1\<close> only: \<open>is_special\<close>.)
\<close>

definition slot_key_names :: "pystr list" where
  "slot_key_names = map (\<lambda>(idx, key, wk). key @ str_int idx) slots"

fun exposes_slot_keys :: "json \<Rightarrow> bool" where
  "exposes_slot_keys (JDict x) = list_ex (has_key x) slot_key_names"
| "exposes_slot_keys v = False"

fun spec_detects_slotted :: "json \<Rightarrow> bool" where
  "spec_detects_slotted (JList xs) = list_ex exposes_slot_keys xs"
| "spec_detects_slotted v = False"

subsection \<open>Concrete inputs\<close>

text \<open>The two cell texts of the docstring of \<open>_parse_cell_text\<close>, and their parts.\<close>

definition kind_lk :: pystr where "kind_lk = [0x43B, 0x43A]"
definition room_529a3 :: pystr where "room_529a3 = [0x35, 0x32, 0x39, 0x430, 0x2D, 0x33]"
definition teacher_filatov :: pystr where
  "teacher_filatov = [0x424, 0x438, 0x43B, 0x430, 0x442, 0x43E, 0x432, 0x20, 0x414, 0x2E, 0x41E, 0x2E]"
definition title_psychology :: pystr where
  "title_psychology = [0x41E, 0x431, 0x449, 0x430, 0x44F, 0x20, 0x43F, 0x441, 0x438, 0x445, 0x43E,
     0x43B, 0x43E, 0x433, 0x438, 0x44F]"

definition cell_lecture :: pystr where
  "cell_lecture = kind_lk @ ascii '', '' @ room_529a3 @ ascii '', '' @ teacher_filatov @ ascii '', ''
     @ title_psychology"

definition kind_pr :: pystr where "kind_pr = [0x43F, 0x440]"
definition part_sport :: pystr where
  "part_sport = [0x424, 0x438, 0x437, 0x438, 0x447, 0x435, 0x441, 0x43A, 0x430, 0x44F, 0x20, 0x43A,
     0x443, 0x43B, 0x44C, 0x442, 0x443, 0x440, 0x430, 0x20, 0x438, 0x20, 0x441, 0x43F, 0x43E, 0x440,
     0x442]"
definition part_potok :: pystr where "part_potok = [0x43F, 0x43E, 0x442, 0x43E, 0x43A]"

definition cell_sport :: pystr where
  "cell_sport = kind_pr @ ascii '', '' @ part_sport @ ascii '', '' @ part_potok"

text \<open>The weekday name U+041F U+043E U+043D U+0435 U+0434 U+0435 U+043B U+044C U+043D U+0438
  U+043A (Monday, capitalised).\<close>

definition name_monday :: pystr where
  "name_monday = [0x41F, 0x43E, 0x43D, 0x435, 0x434, 0x435, 0x43B, 0x44C, 0x43D, 0x438, 0x43A]"

text \<open>The record of the lecture cell on Monday, for a week tag and a pair time.\<close>

definition lecture_lesson :: "pystr \<Rightarrow> string \<Rightarrow> string \<Rightarrow> lesson" where
  "lecture_lesson wk s e =
     \<lparr>day = JInt 1, start = JStr (ascii s), end_time = JStr (ascii e),
      title = JStr title_psychology, teacher = JStr teacher_filatov, room = JStr room_529a3,
      kind = JStr kind_lk, week = wk\<rparr>"

definition slotted_day :: "pystr \<Rightarrow> (string \<times> pystr) list \<Rightarrow> json" where
  "slotted_day nm cells =
     JDict ([(ascii ''type'', JStr (ascii ''Lessons'')), (ascii ''name'', JStr nm)]
            @ map (\<lambda>(k, c). (ascii k, JStr c)) cells)"

definition name_funday :: pystr where "name_funday = ascii ''Funday''"


text \<open>\<open>{"Start": "", "End": "10:00"}\<close>\<close>

definition only_end :: json where
  "only_end = JDict [(ascii ''Start'', JStr []), (ascii ''End'', JStr (ascii ''10:00''))]"

text \<open>\<open>{"Start": "12:00", "End": "10:00"}\<close>\<close>

definition end_before_start :: json where
  "end_before_start =
     JDict [(ascii ''Start'', JStr (ascii ''12:00'')), (ascii ''End'', JStr (ascii ''10:00''))]"

text \<open>A Monday object whose only slot key is \<open>n2\<close>.\<close>

definition second_pair_only :: json where
  "second_pair_only = slotted_day name_monday [(''n2'', cell_lecture)]"

text \<open>A Monday object with the slot key \<open>n1\<close> and a key \<open>Title\<close>.\<close>

definition monday_with_title :: json where
  "monday_with_title = slotted_day name_monday [(''n1'', cell_lecture), (''Title'', ascii ''X'')]"

text \<open>The same Monday object twice.\<close>

definition monday_twice :: json where
  "monday_twice = JList [slotted_day name_monday [(''n1'', cell_lecture)],
                          slotted_day name_monday [(''n1'', cell_lecture)]]"

text \<open>\<open>{"Day": 2, "Numerator": [{"Title": "X"}]}\<close>\<close>

definition day_with_numerator :: json where
  "day_with_numerator =
     JDict [(ascii ''Day'', JInt 2),
            (ascii ''Numerator'', JList [JDict [(ascii ''Title'', JStr (ascii ''X''))]])]"

text \<open>\<open>{"Lessons": [{"Title": "A"}, {"Title": "B"}]}\<close> and the record of a lesson that has
  only a title.\<close>

definition two_lessons_container :: json where
  "two_lessons_container =
     JDict [(ascii ''Lessons'',
             JList [JDict [(ascii ''Title'', JStr (ascii ''A''))],
                    JDict [(ascii ''Title'', JStr (ascii ''B''))]])]"

definition titled_lesson :: "string \<Rightarrow> lesson" where
  "titled_lesson t =
     \<lparr>day = JNull, start = JNull, end_time = JNull, title = JStr (ascii t), teacher = JNull,
      room = JNull, kind = JNull, week = w_all\<rparr>"

text \<open>A Monday object with the same cell under \<open>n2\<close> and \<open>z2\<close>.\<close>

definition monday_pair2 :: "(pystr \<times> json) list" where
  "monday_pair2 =
     [(ascii ''type'', JStr (ascii ''Lessons'')), (ascii ''name'', JStr name_monday),
      (ascii ''n2'', JStr cell_lecture), (ascii ''z2'', JStr cell_lecture)]"

section \<open>Properties of the calendar resolver\<close>

lemma period_loop_find:
  "period_loop d ps =
     map_option (\<lambda>(s, e, k). k) (List.find (\<lambda>(s, e, k). date_le s d \<and> date_le d e) ps)"
  by (induction d ps rule: period_loop.induct) simp_all

lemma period_loop_tag:
  "period_loop d ps = Some k \<Longrightarrow> k \<in> set (map (\<lambda>(s, e, k). k) ps)"
  by (induction d ps rule: period_loop.induct) (simp_all split: if_splits)

lemma special_tags:
  "set (map (\<lambda>(s, e, k). k) SPECIAL_PERIODS) \<subseteq> regimes"
  unfolding SPECIAL_PERIODS_def regimes_def by simp

lemma floor_div7: "\<lfloor>real_of_int x / 7\<rfloor> = x div 7"
  using floor_divide_of_int_eq [of x 7] by simp

text \<open>
  Claim C1. For every date the resolver returns the tag of the first override
  period, in list order, whose inclusive range contains the date; failing that,
  \<open>holiday\<close> on ISO weekday 7; failing that, with
  \<open>weekIndex = floor(days since semester start / 7) + 1\<close>, it returns \<open>before\<close>
  when \<open>weekIndex \<le> 0\<close>, and otherwise \<open>odd\<close> or \<open>even\<close> as
  \<open>block = floor((weekIndex - 1) / 7)\<close> is even or odd. Every argument resolves to
  one of the seven regime tags.
\<close>

theorem get_week_status_resolves:
  "get_week_status a =
     (case List.find (\<lambda>(s, e, k). date_le s (as_date a) \<and> date_le (as_date a) e) SPECIAL_PERIODS of
        Some (s, e, k) \<Rightarrow> k
      | None \<Rightarrow>
          if isoweekday (as_date a) = 7 then ''holiday''
          else if \<lfloor>real_of_int (days_between (as_date a) SEMESTER_START) / 7\<rfloor> + 1 \<le> 0
            then ''before''
          else if even \<lfloor>real_of_int
                 (\<lfloor>real_of_int (days_between (as_date a) SEMESTER_START) / 7\<rfloor> + 1 - 1) / 7\<rfloor>
            then ''odd'' else ''even'')
   \<and> get_week_status a \<in> regimes"
proof
  show "get_week_status a =
     (case List.find (\<lambda>(s, e, k). date_le s (as_date a) \<and> date_le (as_date a) e) SPECIAL_PERIODS of
        Some (s, e, k) \<Rightarrow> k
      | None \<Rightarrow>
          if isoweekday (as_date a) = 7 then ''holiday''
          else if \<lfloor>real_of_int (days_between (as_date a) SEMESTER_START) / 7\<rfloor> + 1 \<le> 0
            then ''before''
          else if even \<lfloor>real_of_int
                 (\<lfloor>real_of_int (days_between (as_date a) SEMESTER_START) / 7\<rfloor> + 1 - 1) / 7\<rfloor>
            then ''odd'' else ''even'')"
  proof (cases "List.find (\<lambda>(s, e, k). date_le s (as_date a) \<and> date_le (as_date a) e)
                  SPECIAL_PERIODS")
    case None
    then show ?thesis
      by (simp add: get_week_status_def Let_def period_loop_find floor_div7
          even_iff_mod_2_eq_zero)
  next
    case (Some p)
    then show ?thesis
      by (cases p) (simp add: get_week_status_def Let_def period_loop_find)
  qed
  show "get_week_status a \<in> regimes"
  proof (cases "period_loop (as_date a) SPECIAL_PERIODS")
    case None
    then show ?thesis
      by (simp add: get_week_status_def Let_def regimes_def)
  next
    case (Some k)
    from period_loop_tag [OF Some] special_tags have "k \<in> regimes"
      by blast
    with Some show ?thesis
      by (simp add: get_week_status_def Let_def)
  qed
qed

lemmas calendar_defs =
  SPECIAL_PERIODS_def SEMESTER_START_def date_le_def days_between_def isoweekday_def
  toordinal_def mk_date_def days_before_year_def days_before_month_def month_lengths_def
  is_leap_def

text \<open>
  Claim C7, as stated: 2025-09-01 resolves to \<open>odd\<close> and 2025-08-31 to \<open>before\<close>.
  The second half fails: 2025-08-31 is a Sunday, and the Sunday rule comes before
  the week index is computed.
\<close>

theorem calendar_boundary_counterexample:
  "\<not> (get_week_status (ADate (mk_date 2025 9 1)) = ''odd'' \<and>
      get_week_status (ADate (mk_date 2025 8 31)) = ''before'')"
  by (simp add: get_week_status_def calendar_defs)

text \<open>
  Claim C7, amended: 2025-09-01 resolves to \<open>odd\<close>, the parity of week 1;
  2025-08-31, a Sunday, resolves to \<open>holiday\<close>; 2025-08-30, the last day before the
  semester that is not a Sunday, resolves to \<open>before\<close>.
\<close>

theorem calendar_boundary:
  "get_week_status (ADate (mk_date 2025 9 1)) = ''odd'' \<and>
   isoweekday (mk_date 2025 8 31) = 7 \<and>
   get_week_status (ADate (mk_date 2025 8 31)) = ''holiday'' \<and>
   get_week_status (ADate (mk_date 2025 8 30)) = ''before''"
  by (simp add: get_week_status_def calendar_defs)

section \<open>Properties of the slotted-day parser\<close>

lemma collect_mem:
  "collect rs = Inr out \<Longrightarrow> l \<in> set out \<Longrightarrow> \<exists>xs. Inr xs \<in> set rs \<and> l \<in> set xs"
proof (induction rs arbitrary: out)
  case Nil
  then show ?case by simp
next
  case (Cons r rs)
  show ?case
  proof (cases r)
    case (Inl e)
    with Cons.prems show ?thesis by simp
  next
    case (Inr xs)
    show ?thesis
    proof (cases "collect rs")
      case (Inl e)
      with Inr Cons.prems show ?thesis by simp
    next
      case ys: (Inr ys)
      with Inr Cons.prems have out: "out = xs @ ys" by simp
      show ?thesis
      proof (cases "l \<in> set xs")
        case True
        with Inr show ?thesis by auto
      next
        case False
        with out Cons.prems(2) have "l \<in> set ys" by simp
        from Cons.IH [OF ys this] show ?thesis by auto
      qed
    qed
  qed
qed

lemma collect_map_mem:
  assumes "collect (map f ys) = Inr out" "l \<in> set out"
  shows "\<exists>y xs. y \<in> set ys \<and> f y = Inr xs \<and> l \<in> set xs"
proof -
  from collect_mem [OF assms] obtain xs where "Inr xs \<in> f ` set ys" "l \<in> set xs"
    by auto
  then show ?thesis
    by (metis imageE)
qed

lemma collect_skip: "collect (rs @ Inr [] # rs') = collect (rs @ rs')"
  by (induction rs) (auto split: sum.splits)

lemma week_tags_distinct: "w_odd \<noteq> w_all" "w_even \<noteq> w_all" "w_odd \<noteq> w_even"
  by (simp_all add: w_odd_def w_all_def w_even_def ascii_def)

lemma slots_range:
  "(idx, key, wk) \<in> set slots \<Longrightarrow> 1 \<le> idx \<and> idx \<le> 7 \<and> (wk = w_odd \<or> wk = w_even)"
  by (auto simp: slots_def)

lemma pair_times_total:
  assumes "1 \<le> idx" "idx \<le> 7"
  shows "\<exists>s e. map_of PAIR_TIMES idx = Some (s, e) \<and> (idx, s, e) \<in> set PAIR_TIMES \<and> str_le s e"
proof -
  from assms have "idx = 1 \<or> idx = 2 \<or> idx = 3 \<or> idx = 4 \<or> idx = 5 \<or> idx = 6 \<or> idx = 7"
    by arith
  then show ?thesis
    by (elim disjE) (simp_all add: PAIR_TIMES_def ascii_def)
qed

lemma day_map_range: "map_of DAY_MAP_RU nm = Some n \<Longrightarrow> (nm, n) \<in> set DAY_MAP_RU \<and> 1 \<le> n \<and> n \<le> 7"
  by (rule conjI, erule map_of_SomeD) (auto simp: DAY_MAP_RU_def split: if_splits)

lemma slot_record:
  assumes "slot B d n (idx, key, wk) = Inr ls" "l \<in> set ls" "1 \<le> idx" "idx \<le> 7"
  shows "day l = JInt n \<and> week l = wk \<and>
     (\<exists>s e. (idx, s, e) \<in> set PAIR_TIMES \<and> start l = JStr s \<and> end_time l = JStr e \<and> str_le s e)"
proof -
  from pair_times_total [OF assms(3,4)] obtain s e where
    pt: "map_of PAIR_TIMES idx = Some (s, e)" "(idx, s, e) \<in> set PAIR_TIMES" "str_le s e"
    by blast
  from assms(1,2) pt show ?thesis
    by (auto simp: slot_def Let_def split: sum.splits if_splits prod.splits)
qed

lemma special_day_record:
  assumes "special_day B v = Inr ls" "l \<in> set ls"
  shows "slotted_record l"
proof (cases v)
  case (JDict d)
  with assms obtain n where
    n: "map_of DAY_MAP_RU (day_name_of B d) = Some n"
    and c: "collect (map (slot B d n) slots) = Inr ls"
    by (auto split: if_splits option.splits)
  from collect_map_mem [OF c assms(2)] obtain xs sl where
    sl: "sl \<in> set slots" "slot B d n sl = Inr xs" "l \<in> set xs"
    by blast
  obtain idx key wk where sl_eq: "sl = (idx, key, wk)"
    by (cases sl) auto
  from slots_range sl(1) sl_eq have r: "1 \<le> idx" "idx \<le> 7" "wk = w_odd \<or> wk = w_even"
    by blast+
  from slot_record [OF sl(2) [unfolded sl_eq] sl(3) r(1,2)] day_map_range [OF n] r(3)
  show ?thesis
    unfolding slotted_record_def by blast
qed (use assms in auto)

lemma special_array_record:
  assumes "normalize_special_day_array B raw = Inr out" "l \<in> set out"
  shows "slotted_record l"
proof -
  from collect_map_mem [OF assms(1) [unfolded normalize_special_day_array_def] assms(2)]
  obtain xs v where "special_day B v = Inr xs" "l \<in> set xs"
    by blast
  then show ?thesis
    by (rule special_day_record)
qed

lemma special_day_unknown:
  "map_of DAY_MAP_RU (day_name_of B d) = None \<Longrightarrow> special_day B (JDict d) = Inr []"
  by simp

text \<open>
  Claim C3. The cell tokenizer, on the cell text "lk, 529a-3, Filatov D.O., Obshchaya
  psikhologiya" (in Cyrillic, \<open>cell_lecture\<close>), yields that kind, room, teacher and
  title; on "pr, Fizicheskaya kul'tura i sport, potok" (\<open>cell_sport\<close>) it yields the
  kind, no room, no teacher and the title made of the two remaining tokens, neither
  of which contains a digit or a hyphen, or both a period and a space.
\<close>

theorem parse_cell_text_examples:
  "parse_cell_text basic_builtins cell_lecture =
     (Some kind_lk, Some room_529a3, Some teacher_filatov, Some title_psychology)
   \<and> parse_cell_text basic_builtins cell_sport =
     (Some kind_pr, None, None, Some (part_sport @ ascii '', '' @ part_potok))
   \<and> list_all (\<lambda>p. \<not> list_ex basic_is_decimal p \<and> 0x2D \<notin> set p \<and> \<not> (0x2E \<in> set p \<and> 0x20 \<in> set p))
        [part_sport, part_potok]"
  by code_simp

text \<open>
  Claim C8. Every record produced by the slotted-day parser has as its day an
  integer from 1 to 7 taken from the weekday-name table, and a day object whose
  weekday name is not in the table contributes no record: the result is the same
  as without that object.
\<close>

theorem slotted_day_in_range:
  "(normalize_special_day_array B raw = Inr out \<longrightarrow>
      (\<forall>l \<in> set out. \<exists>nm n. (nm, n) \<in> set DAY_MAP_RU \<and> day l = JInt n \<and> 1 \<le> n \<and> n \<le> 7))
   \<and> (map_of DAY_MAP_RU (day_name_of B d) = None \<longrightarrow>
        special_day B (JDict d) = Inr [] \<and>
        normalize_special_day_array B (xs @ JDict d # ys) = normalize_special_day_array B (xs @ ys))"
proof (intro conjI impI ballI)
  fix l
  assume "normalize_special_day_array B raw = Inr out" "l \<in> set out"
  then have "slotted_record l"
    by (rule special_array_record)
  then show "\<exists>nm n. (nm, n) \<in> set DAY_MAP_RU \<and> day l = JInt n \<and> 1 \<le> n \<and> n \<le> 7"
    unfolding slotted_record_def by blast
next
  assume "map_of DAY_MAP_RU (day_name_of B d) = None"
  then show skip: "special_day B (JDict d) = Inr []"
    by simp
  then show "normalize_special_day_array B (xs @ JDict d # ys) = normalize_special_day_array B (xs @ ys)"
    by (simp add: normalize_special_day_array_def collect_skip)
qed

text \<open>
  An instance: one Monday object with a cell in slot \<open>n1\<close>, alone and followed by an
  object whose name is no weekday.
\<close>

theorem slotted_day_in_range_witness:
  "normalize_special_day_array basic_builtins [slotted_day name_monday [(''n1'', cell_lecture)]]
     = Inr [lecture_lesson w_odd ''08:30'' ''10:00'']
   \<and> day (lecture_lesson w_odd ''08:30'' ''10:00'') = JInt 1
   \<and> map_of DAY_MAP_RU (day_name_of basic_builtins
        [(ascii ''type'', JStr (ascii ''Lessons'')), (ascii ''name'', JStr name_funday),
         (ascii ''n1'', JStr cell_lecture)]) = None
   \<and> normalize_special_day_array basic_builtins
        ([slotted_day name_monday [(''n1'', cell_lecture)]] @
          JDict [(ascii ''type'', JStr (ascii ''Lessons'')), (ascii ''name'', JStr name_funday),
                 (ascii ''n1'', JStr cell_lecture)] # [])
     = Inr [lecture_lesson w_odd ''08:30'' ''10:00'']"
proof -
  have e1: "normalize_special_day_array basic_builtins [slotted_day name_monday [(''n1'', cell_lecture)]]
     = Inr [lecture_lesson w_odd ''08:30'' ''10:00'']"
    by code_simp
  have e2: "map_of DAY_MAP_RU (day_name_of basic_builtins
        [(ascii ''type'', JStr (ascii ''Lessons'')), (ascii ''name'', JStr name_funday),
         (ascii ''n1'', JStr cell_lecture)]) = None"
    by code_simp
  have e3: "day (lecture_lesson w_odd ''08:30'' ''10:00'') = JInt 1"
    by (simp add: lecture_lesson_def)
  from slotted_day_in_range [of basic_builtins "[slotted_day name_monday [(''n1'', cell_lecture)]]"
      "[lecture_lesson w_odd ''08:30'' ''10:00'']"
      "[(ascii ''type'', JStr (ascii ''Lessons'')), (ascii ''name'', JStr name_funday),
         (ascii ''n1'', JStr cell_lecture)]" "[slotted_day name_monday [(''n1'', cell_lecture)]]" "[]"]
    e1 e2 e3
  show ?thesis by simp
qed

lemma collect_elem:
  "collect rs = Inr out \<Longrightarrow> r \<in> set rs \<Longrightarrow> \<exists>xs. r = Inr xs \<and> set xs \<subseteq> set out"
proof (induction rs arbitrary: out)
  case Nil
  then show ?case by simp
next
  case (Cons a rs)
  from Cons.prems(1) obtain xs ys where
    a: "a = Inr xs" and c: "collect rs = Inr ys" and out: "out = xs @ ys"
    by (auto split: sum.splits)
  show ?case
  proof (cases "r = a")
    case True
    with a out show ?thesis by auto
  next
    case False
    with Cons.prems(2) have "r \<in> set rs" by simp
    from Cons.IH [OF c this] out show ?thesis by auto
  qed
qed

lemma slots_mem:
  "1 \<le> idx \<Longrightarrow> idx \<le> 7 \<Longrightarrow>
   (idx, ascii ''n'', w_odd) \<in> set slots \<and> (idx, ascii ''z'', w_even) \<in> set slots"
  by (auto simp: slots_def)

lemma pair_times_keys:
  "(idx, s, e) \<in> set PAIR_TIMES \<Longrightarrow> 1 \<le> idx \<and> idx \<le> 7 \<and> map_of PAIR_TIMES idx = Some (s, e)"
  by (auto simp: PAIR_TIMES_def)

lemma strip_Nil: "strip B [] = []"
  by (simp add: strip_def)

lemma slot_emits:
  assumes "dict_get d (key @ str_int idx) JNull = JStr c" "strip B c \<noteq> []"
    "parse_cell_text B (strip B c) = (kind_v, room_v, teacher_v, title_v)"
    "truthy (opt_json title_v) \<or> truthy (opt_json room_v) \<or> truthy (opt_json teacher_v) \<or>
     truthy (opt_json kind_v)"
    "map_of PAIR_TIMES idx = Some (s, e)"
  shows "slot B d n (idx, key, wk) =
     Inr [\<lparr>day = JInt n, start = JStr s, end_time = JStr e, title = opt_json title_v,
           teacher = opt_json teacher_v, room = opt_json room_v, kind = opt_json kind_v,
           week = wk\<rparr>]"
proof -
  from assms(2) have "c \<noteq> []"
    using strip_Nil by auto
  then have "cell_text B (JStr c) = Inr (strip B c)"
    by (simp add: cell_text_def)
  with assms show ?thesis
    by (simp add: slot_def)
qed

lemma special_array_emits:
  assumes out: "normalize_special_day_array B raw = Inr out"
    and d: "JDict d \<in> set raw" "dict_get d (ascii ''type'') JNull = JStr (ascii ''Lessons'')"
      "map_of DAY_MAP_RU (day_name_of B d) = Some n"
    and sl: "(idx, key, wk) \<in> set slots"
    and cell: "dict_get d (key @ str_int idx) JNull = JStr c" "strip B c \<noteq> []"
      "parse_cell_text B (strip B c) = (kind_v, room_v, teacher_v, title_v)"
      "truthy (opt_json title_v) \<or> truthy (opt_json room_v) \<or> truthy (opt_json teacher_v) \<or>
       truthy (opt_json kind_v)"
      "map_of PAIR_TIMES idx = Some (s, e)"
  shows "\<lparr>day = JInt n, start = JStr s, end_time = JStr e, title = opt_json title_v,
           teacher = opt_json teacher_v, room = opt_json room_v, kind = opt_json kind_v,
           week = wk\<rparr> \<in> set out"
proof -
  from d(1) have "special_day B (JDict d) \<in> set (map (special_day B) raw)"
    unfolding set_map by (rule imageI)
  from collect_elem [OF out [unfolded normalize_special_day_array_def] this]
  obtain ys where ys: "special_day B (JDict d) = Inr ys" "set ys \<subseteq> set out"
    by blast
  from day_map_range [OF d(3)] have "n \<noteq> 0"
    by simp
  with ys(1) d(2,3) have c: "collect (map (slot B d n) slots) = Inr ys"
    by simp
  from sl have "slot B d n (idx, key, wk) \<in> set (map (slot B d n) slots)"
    unfolding set_map by (rule imageI)
  from collect_elem [OF c this] slot_emits [OF cell, of n wk] ys(2) show ?thesis
    by auto
qed

text \<open>
  Claim C10. Every record produced by the slotted-day parser has week \<open>odd\<close> or
  \<open>even\<close>, never \<open>all\<close>, and has both start and end present, taken from one entry
  of the pair-time table. For every day object with a weekday name of the table,
  every pair index of the table and every cell text with content, the cell under
  the \<open>n\<close> key gives a record of week \<open>odd\<close> and the cell under the \<open>z\<close> key a
  record of week \<open>even\<close>, with the day, the pair time and the parsed fields: a lesson
  of both parities is in the output as two records, which differ in the week.
\<close>

theorem slotted_week_and_times:
  "normalize_special_day_array B raw = Inr out \<Longrightarrow>
   (\<forall>l \<in> set out.
     (week l = w_odd \<or> week l = w_even) \<and> week l \<noteq> w_all \<and>
     (\<exists>idx s e. (idx, s, e) \<in> set PAIR_TIMES \<and> start l = JStr s \<and> end_time l = JStr e))
   \<and> (\<forall>d n idx s e c kind_v room_v teacher_v title_v.
        JDict d \<in> set raw \<longrightarrow>
        dict_get d (ascii ''type'') JNull = JStr (ascii ''Lessons'') \<longrightarrow>
        map_of DAY_MAP_RU (day_name_of B d) = Some n \<longrightarrow>
        (idx, s, e) \<in> set PAIR_TIMES \<longrightarrow>
        strip B c \<noteq> [] \<longrightarrow>
        parse_cell_text B (strip B c) = (kind_v, room_v, teacher_v, title_v) \<longrightarrow>
        (truthy (opt_json title_v) \<or> truthy (opt_json room_v) \<or> truthy (opt_json teacher_v) \<or>
         truthy (opt_json kind_v)) \<longrightarrow>
        (dict_get d (ascii ''n'' @ str_int idx) JNull = JStr c \<longrightarrow>
           \<lparr>day = JInt n, start = JStr s, end_time = JStr e, title = opt_json title_v,
            teacher = opt_json teacher_v, room = opt_json room_v, kind = opt_json kind_v,
            week = w_odd\<rparr> \<in> set out) \<and>
        (dict_get d (ascii ''z'' @ str_int idx) JNull = JStr c \<longrightarrow>
           \<lparr>day = JInt n, start = JStr s, end_time = JStr e, title = opt_json title_v,
            teacher = opt_json teacher_v, room = opt_json room_v, kind = opt_json kind_v,
            week = w_even\<rparr> \<in> set out))
   \<and> w_odd \<noteq> w_even"
proof -
  assume out: "normalize_special_day_array B raw = Inr out"
  have inv: "\<forall>l \<in> set out.
     (week l = w_odd \<or> week l = w_even) \<and> week l \<noteq> w_all \<and>
     (\<exists>idx s e. (idx, s, e) \<in> set PAIR_TIMES \<and> start l = JStr s \<and> end_time l = JStr e)"
  proof
    fix l
    assume "l \<in> set out"
    with out have "slotted_record l"
      by (rule special_array_record)
    then show "(week l = w_odd \<or> week l = w_even) \<and> week l \<noteq> w_all \<and>
       (\<exists>idx s e. (idx, s, e) \<in> set PAIR_TIMES \<and> start l = JStr s \<and> end_time l = JStr e)"
      unfolding slotted_record_def using week_tags_distinct by metis
  qed
  have emits: "\<forall>d n idx s e c kind_v room_v teacher_v title_v.
        JDict d \<in> set raw \<longrightarrow>
        dict_get d (ascii ''type'') JNull = JStr (ascii ''Lessons'') \<longrightarrow>
        map_of DAY_MAP_RU (day_name_of B d) = Some n \<longrightarrow>
        (idx, s, e) \<in> set PAIR_TIMES \<longrightarrow>
        strip B c \<noteq> [] \<longrightarrow>
        parse_cell_text B (strip B c) = (kind_v, room_v, teacher_v, title_v) \<longrightarrow>
        (truthy (opt_json title_v) \<or> truthy (opt_json room_v) \<or> truthy (opt_json teacher_v) \<or>
         truthy (opt_json kind_v)) \<longrightarrow>
        (dict_get d (ascii ''n'' @ str_int idx) JNull = JStr c \<longrightarrow>
           \<lparr>day = JInt n, start = JStr s, end_time = JStr e, title = opt_json title_v,
            teacher = opt_json teacher_v, room = opt_json room_v, kind = opt_json kind_v,
            week = w_odd\<rparr> \<in> set out) \<and>
        (dict_get d (ascii ''z'' @ str_int idx) JNull = JStr c \<longrightarrow>
           \<lparr>day = JInt n, start = JStr s, end_time = JStr e, title = opt_json title_v,
            teacher = opt_json teacher_v, room = opt_json room_v, kind = opt_json kind_v,
            week = w_even\<rparr> \<in> set out)"
  proof (intro allI impI conjI)

  fix d n idx s e c kind_v room_v teacher_v title_v
  assume d: "JDict d \<in> set raw" "dict_get d (ascii ''type'') JNull = JStr (ascii ''Lessons'')"
      "map_of DAY_MAP_RU (day_name_of B d) = Some n"
    and pt: "(idx, s, e) \<in> set PAIR_TIMES"
    and cell: "strip B c \<noteq> []"
      "parse_cell_text B (strip B c) = (kind_v, room_v, teacher_v, title_v)"
      "truthy (opt_json title_v) \<or> truthy (opt_json room_v) \<or> truthy (opt_json teacher_v) \<or>
       truthy (opt_json kind_v)"
    and n: "dict_get d (ascii ''n'' @ str_int idx) JNull = JStr c"
  from pair_times_keys [OF pt] slots_mem have "(idx, ascii ''n'', w_odd) \<in> set slots"
    "map_of PAIR_TIMES idx = Some (s, e)"
    by blast+
  from special_array_emits [OF out d this(1) n cell this(2)]
  show "\<lparr>day = JInt n, start = JStr s, end_time = JStr e, title = opt_json title_v,
            teacher = opt_json teacher_v, room = opt_json room_v, kind = opt_json kind_v,
            week = w_odd\<rparr> \<in> set out" .
next
  fix d n idx s e c kind_v room_v teacher_v title_v
  assume d: "JDict d \<in> set raw" "dict_get d (ascii ''type'') JNull = JStr (ascii ''Lessons'')"
      "map_of DAY_MAP_RU (day_name_of B d) = Some n"
    and pt: "(idx, s, e) \<in> set PAIR_TIMES"
    and cell: "strip B c \<noteq> []"
      "parse_cell_text B (strip B c) = (kind_v, room_v, teacher_v, title_v)"
      "truthy (opt_json title_v) \<or> truthy (opt_json room_v) \<or> truthy (opt_json teacher_v) \<or>
       truthy (opt_json kind_v)"
    and z: "dict_get d (ascii ''z'' @ str_int idx) JNull = JStr c"
  from pair_times_keys [OF pt] slots_mem have "(idx, ascii ''z'', w_even) \<in> set slots"
    "map_of PAIR_TIMES idx = Some (s, e)"
    by blast+
  from special_array_emits [OF out d this(1) z cell this(2)]
  show "\<lparr>day = JInt n, start = JStr s, end_time = JStr e, title = opt_json title_v,
            teacher = opt_json teacher_v, room = opt_json room_v, kind = opt_json kind_v,
            week = w_even\<rparr> \<in> set out" .
qed
  from inv emits week_tags_distinct(3) show ?thesis
    by (intro conjI)
qed

text \<open>
  An instance: the same cell in the slots \<open>n2\<close> and \<open>z2\<close> of one Monday object gives
  an \<open>odd\<close> record and an \<open>even\<close> record, which differ.
\<close>

theorem slotted_week_and_times_witness:
  "normalize_special_day_array basic_builtins [JDict monday_pair2]
     = Inr [lecture_lesson w_odd ''10:20'' ''11:50'', lecture_lesson w_even ''10:20'' ''11:50'']
   \<and> week (lecture_lesson w_odd ''10:20'' ''11:50'') = w_odd
   \<and> week (lecture_lesson w_even ''10:20'' ''11:50'') = w_even
   \<and> w_odd \<noteq> w_all \<and> w_even \<noteq> w_all
   \<and> (2, ascii ''10:20'', ascii ''11:50'') \<in> set PAIR_TIMES
   \<and> start (lecture_lesson w_odd ''10:20'' ''11:50'') = JStr (ascii ''10:20'')
   \<and> end_time (lecture_lesson w_odd ''10:20'' ''11:50'') = JStr (ascii ''11:50'')
   \<and> dict_get monday_pair2 (ascii ''type'') JNull = JStr (ascii ''Lessons'')
   \<and> map_of DAY_MAP_RU (day_name_of basic_builtins monday_pair2) = Some 1
   \<and> dict_get monday_pair2 (ascii ''n'' @ str_int 2) JNull = JStr cell_lecture
   \<and> dict_get monday_pair2 (ascii ''z'' @ str_int 2) JNull = JStr cell_lecture
   \<and> strip basic_builtins cell_lecture \<noteq> []
   \<and> parse_cell_text basic_builtins (strip basic_builtins cell_lecture) =
       (Some kind_lk, Some room_529a3, Some teacher_filatov, Some title_psychology)
   \<and> lecture_lesson w_odd ''10:20'' ''11:50''
       \<in> set [lecture_lesson w_odd ''10:20'' ''11:50'', lecture_lesson w_even ''10:20'' ''11:50'']
   \<and> lecture_lesson w_even ''10:20'' ''11:50''
       \<in> set [lecture_lesson w_odd ''10:20'' ''11:50'', lecture_lesson w_even ''10:20'' ''11:50'']
   \<and> lecture_lesson w_odd ''10:20'' ''11:50'' \<noteq> lecture_lesson w_even ''10:20'' ''11:50''"
proof -
  have e1: "normalize_special_day_array basic_builtins [JDict monday_pair2]
     = Inr [lecture_lesson w_odd ''10:20'' ''11:50'', lecture_lesson w_even ''10:20'' ''11:50'']"
    by code_simp
  have e2: "(2, ascii ''10:20'', ascii ''11:50'') \<in> set PAIR_TIMES"
    by (simp add: PAIR_TIMES_def)
  have h1: "JDict monday_pair2 \<in> set [JDict monday_pair2]"
    by simp
  have h2: "dict_get monday_pair2 (ascii ''type'') JNull = JStr (ascii ''Lessons'')"
    by code_simp
  have h3: "map_of DAY_MAP_RU (day_name_of basic_builtins monday_pair2) = Some 1"
    by code_simp
  have h4: "strip basic_builtins cell_lecture \<noteq> []"
    by code_simp
  have h5: "parse_cell_text basic_builtins (strip basic_builtins cell_lecture) =
       (Some kind_lk, Some room_529a3, Some teacher_filatov, Some title_psychology)"
    by code_simp
  have h6: "truthy (opt_json (Some title_psychology)) \<or> truthy (opt_json (Some room_529a3)) \<or>
      truthy (opt_json (Some teacher_filatov)) \<or> truthy (opt_json (Some kind_lk))"
    by (simp add: kind_lk_def)
  have h7: "dict_get monday_pair2 (ascii ''n'' @ str_int 2) JNull = JStr cell_lecture"
    by code_simp
  have h8: "dict_get monday_pair2 (ascii ''z'' @ str_int 2) JNull = JStr cell_lecture"
    by code_simp
  have d: "lecture_lesson w_odd ''10:20'' ''11:50'' \<noteq> lecture_lesson w_even ''10:20'' ''11:50''"
    using week_tags_distinct by (simp add: lecture_lesson_def)
  note t = slotted_week_and_times [OF e1]
  from t [THEN conjunct2, THEN conjunct1, rule_format, OF h1 h2 h3 e2 h4 h5 h6]
  have both: "(dict_get monday_pair2 (ascii ''n'' @ str_int 2) JNull = JStr cell_lecture \<longrightarrow>
       lecture_lesson w_odd ''10:20'' ''11:50''
       \<in> set [lecture_lesson w_odd ''10:20'' ''11:50'', lecture_lesson w_even ''10:20'' ''11:50''])
     \<and> (dict_get monday_pair2 (ascii ''z'' @ str_int 2) JNull = JStr cell_lecture \<longrightarrow>
       lecture_lesson w_even ''10:20'' ''11:50''
       \<in> set [lecture_lesson w_odd ''10:20'' ''11:50'', lecture_lesson w_even ''10:20'' ''11:50''])"
    by (simp add: lecture_lesson_def)
  from t [THEN conjunct1] have inv: "week (lecture_lesson w_odd ''10:20'' ''11:50'') \<noteq> w_all
      \<and> week (lecture_lesson w_even ''10:20'' ''11:50'') \<noteq> w_all"
    by simp
  from inv have w: "w_odd \<noteq> w_all" "w_even \<noteq> w_all"
    by (simp_all add: lecture_lesson_def)
  have f: "week (lecture_lesson w_odd ''10:20'' ''11:50'') = w_odd"
    "week (lecture_lesson w_even ''10:20'' ''11:50'') = w_even"
    "start (lecture_lesson w_odd ''10:20'' ''11:50'') = JStr (ascii ''10:20'')"
    "end_time (lecture_lesson w_odd ''10:20'' ''11:50'') = JStr (ascii ''11:50'')"
    by (simp_all add: lecture_lesson_def)
  from both h7 h8 have m: "lecture_lesson w_odd ''10:20'' ''11:50''
       \<in> set [lecture_lesson w_odd ''10:20'' ''11:50'', lecture_lesson w_even ''10:20'' ''11:50'']"
    "lecture_lesson w_even ''10:20'' ''11:50''
       \<in> set [lecture_lesson w_odd ''10:20'' ''11:50'', lecture_lesson w_even ''10:20'' ''11:50'']"
    by blast+
  from e1 f w e2 h2 h3 h7 h8 h4 h5 m d show ?thesis
    by blast
qed

section \<open>Properties of the generic walker and of \<open>normalize_schedule\<close>\<close>

lemma all_records_simps [simp]:
  "all_records P (Inl e)" "all_records P (Inr xs) = list_all P xs"
  by (simp_all add: all_records_def)

lemma truthy_present: "truthy v \<Longrightarrow> v \<noteq> JNull"
  by (cases v) simp_all

lemma collect_all_records:
  "(\<And>r. r \<in> set rs \<Longrightarrow> all_records P r) \<Longrightarrow> all_records P (collect rs)"
proof (induction rs)
  case Nil
  then show ?case by simp
next
  case (Cons r rs)
  then have "all_records P r" "all_records P (collect rs)"
    by simp_all
  then show ?case
    by (cases r; cases "collect rs") simp_all
qed

lemma push_content: "all_records has_content (push B item ctx_day ctx_week)"
proof (cases item)
  case (JDict d)
  then show ?thesis
    by (simp add: Let_def has_content_def split: sum.splits)
qed simp_all

lemma walk_content: "all_records has_content (walk B node ctx_day ctx_week)"
proof (induction B node ctx_day ctx_week rule: walk.induct)
  case (1 B xs ctx_day ctx_week)
  then show ?case
    by (auto intro!: collect_all_records)
next
  case (2 B node ctx_day ctx_week)
  define cand where "cand =
    (if list_ex (has_key node) start_keys \<or> list_ex (has_key node) lesson_title_keys
     then push B (JDict node) ctx_day ctx_week else Inr [])"
  define in_container where "in_container = (\<lambda>key. case map_of node key of
      Some v \<Rightarrow> walk B v (pick node day_keys ctx_day) (pick node week_keys ctx_week)
    | None \<Rightarrow> Inr [])"
  define in_variant where "in_variant = (\<lambda>(key, w). case map_of node key of
      Some v \<Rightarrow> walk B v ctx_day (JStr w)
    | None \<Rightarrow> Inr [])"
  define in_value where "in_value = (\<lambda>v. if is_container v
      then walk B v (pick node day_keys ctx_day) (pick node week_keys ctx_week) else Inr [])"
  have p1: "all_records has_content cand"
    by (simp add: cand_def push_content del: push.simps)
  have p2: "all_records has_content (in_container key)" if "key \<in> set container_keys" for key
    using "2.IH"(1) [OF refl refl that] by (simp add: in_container_def split: option.splits)
  have p3: "all_records has_content (in_variant kw)" if "kw \<in> set week_variant_keys" for kw
    using "2.IH"(2) [OF refl refl that] by (cases kw) (simp add: in_variant_def split: option.splits)
  have p4: "all_records has_content (in_value v)" if "v \<in> set (map snd node)" for v
    using "2.IH"(3) [OF refl refl that] by (simp add: in_value_def)
  have eq: "walk B (JDict node) ctx_day ctx_week =
      collect ([cand] @ map in_container container_keys @ map in_variant week_variant_keys
               @ map in_value (map snd node))"
    by (simp add: Let_def cand_def in_container_def in_variant_def in_value_def)
  show ?case
    unfolding eq
  proof (rule collect_all_records)
    fix r
    assume "r \<in> set ([cand] @ map in_container container_keys @ map in_variant week_variant_keys
               @ map in_value (map snd node))"
    then have "r = cand \<or> r \<in> in_container ` set container_keys \<or>
        r \<in> in_variant ` set week_variant_keys \<or> r \<in> in_value ` set (map snd node)"
      by (simp only: set_append set_map set_simps insert_iff empty_iff Un_iff) blast
    with p1 p2 p3 p4 show "all_records has_content r"
      by blast
  qed
qed simp_all

lemma dedup_subset: "dedup_loop seen uniq ls = Inr out \<Longrightarrow> set out \<subseteq> set uniq \<union> set ls"
proof (induction seen uniq ls rule: dedup_loop.induct)
  case (1 seen uniq)
  then show ?case by simp
next
  case (2 seen uniq l ls)
  then show ?case
    by (auto split: if_splits)
qed

lemma is_special_list: "is_special raw \<Longrightarrow> \<exists>xs. raw = JList xs"
  by (cases raw) simp_all

lemma generic_content:
  assumes "\<not> is_special raw" "normalize_schedule B raw = Inr out" "l \<in> set out"
  shows "has_content l"
proof -
  from assms(1,2) obtain ls where
    w: "walk B raw JNull JNull = Inr ls" and d: "dedup_loop [] [] ls = Inr out"
    by (auto split: sum.splits)
  from dedup_subset [OF d] assms(3) have "l \<in> set ls"
    by auto
  with walk_content [of B raw JNull JNull] w show ?thesis
    by (simp add: list_all_iff)
qed

text \<open>
  Claim C5, as stated: every output record has at least one of title, room, teacher
  and start present. It fails on a node that has a \<open>Start\<close> key with an empty value
  and an \<open>End\<close> value: the record is kept for its end alone.
\<close>

theorem identifying_content_counterexample:
  "normalize_schedule basic_builtins only_end =
     Inr [\<lparr>day = JNull, start = JNull, end_time = JStr (ascii ''10:00''), title = JNull,
           teacher = JNull, room = JNull, kind = JNull, week = w_all\<rparr>]"
  by code_simp

text \<open>
  Claim C5, amended: every record in the output of \<open>normalize_schedule\<close> has at least
  one of the fields title, room, teacher, start and end present (not \<open>None\<close>); a
  candidate in which all five are absent is discarded.
\<close>

theorem identifying_content:
  "normalize_schedule B raw = Inr out \<Longrightarrow>
   \<forall>l \<in> set out.
     title l \<noteq> JNull \<or> room l \<noteq> JNull \<or> teacher l \<noteq> JNull \<or> start l \<noteq> JNull \<or>
     end_time l \<noteq> JNull"
proof
  fix l
  assume out: "normalize_schedule B raw = Inr out" and l: "l \<in> set out"
  show "title l \<noteq> JNull \<or> room l \<noteq> JNull \<or> teacher l \<noteq> JNull \<or> start l \<noteq> JNull \<or>
     end_time l \<noteq> JNull"
  proof (cases "is_special raw")
    case True
    with is_special_list obtain xs where "raw = JList xs"
      by blast
    with True out have "normalize_special_day_array B xs = Inr out"
      by simp
    from special_array_record [OF this l] show ?thesis
      unfolding slotted_record_def by auto
  next
    case False
    from generic_content [OF False out l] show ?thesis
      unfolding has_content_def using truthy_present by blast
  qed
qed

text \<open>An instance: the record kept for its end.\<close>

theorem identifying_content_witness:
  "normalize_schedule basic_builtins only_end =
     Inr [\<lparr>day = JNull, start = JNull, end_time = JStr (ascii ''10:00''), title = JNull,
           teacher = JNull, room = JNull, kind = JNull, week = w_all\<rparr>]
   \<and> JStr (ascii ''10:00'') \<noteq> JNull"
proof -
  have e1: "normalize_schedule basic_builtins only_end =
     Inr [\<lparr>day = JNull, start = JNull, end_time = JStr (ascii ''10:00''), title = JNull,
           teacher = JNull, room = JNull, kind = JNull, week = w_all\<rparr>]"
    by code_simp
  from identifying_content [OF e1] e1 show ?thesis
    by simp
qed

text \<open>
  Claim C9, as stated: in every output record with start and end present, start is
  lexicographically at most end. The generic walker copies both from the input.
\<close>

theorem start_le_end_counterexample:
  "normalize_schedule basic_builtins end_before_start =
     Inr [\<lparr>day = JNull, start = JStr (ascii ''12:00''), end_time = JStr (ascii ''10:00''),
           title = JNull, teacher = JNull, room = JNull, kind = JNull, week = w_all\<rparr>]
   \<and> \<not> str_le (ascii ''12:00'') (ascii ''10:00'')"
  by code_simp

text \<open>
  Claim C9, amended: for every raw input that takes the slotted-day path, every
  record in the output has start and end present, with start lexicographically at
  most end.
\<close>

theorem slotted_start_le_end:
  "is_special raw \<Longrightarrow> normalize_schedule B raw = Inr out \<Longrightarrow>
   \<forall>l \<in> set out. \<exists>s e. start l = JStr s \<and> end_time l = JStr e \<and> str_le s e"
proof
  fix l
  assume sp: "is_special raw" and out: "normalize_schedule B raw = Inr out" and l: "l \<in> set out"
  from sp is_special_list obtain xs where "raw = JList xs"
    by blast
  with sp out have "normalize_special_day_array B xs = Inr out"
    by simp
  from special_array_record [OF this l] show "\<exists>s e. start l = JStr s \<and> end_time l = JStr e \<and> str_le s e"
    unfolding slotted_record_def by blast
qed

text \<open>An instance: a Monday object with a cell in slot \<open>z1\<close>.\<close>

theorem slotted_start_le_end_witness:
  "is_special (JList [slotted_day name_monday [(''z1'', cell_sport)]])
   \<and> normalize_schedule basic_builtins (JList [slotted_day name_monday [(''z1'', cell_sport)]]) =
       Inr [\<lparr>day = JInt 1, start = JStr (ascii ''08:30''), end_time = JStr (ascii ''10:00''),
             title = JStr (part_sport @ ascii '', '' @ part_potok), teacher = JNull, room = JNull,
             kind = JStr kind_pr, week = w_even\<rparr>]
   \<and> str_le (ascii ''08:30'') (ascii ''10:00'')"
proof -
  have e0: "is_special (JList [slotted_day name_monday [(''z1'', cell_sport)]])"
    by code_simp
  have e1: "normalize_schedule basic_builtins (JList [slotted_day name_monday [(''z1'', cell_sport)]]) =
       Inr [\<lparr>day = JInt 1, start = JStr (ascii ''08:30''), end_time = JStr (ascii ''10:00''),
             title = JStr (part_sport @ ascii '', '' @ part_potok), teacher = JNull, room = JNull,
             kind = JStr kind_pr, week = w_even\<rparr>]"
    by code_simp
  from slotted_start_le_end [OF e0 e1] e0 e1 show ?thesis
    by simp
qed

text \<open>
  Claim C2, as stated: a top-level list with an element that exposes the
  index-suffixed slot keys is processed by the slotted-day parser. A Monday object
  whose only slot key is \<open>n2\<close> exposes the convention; the slotted-day parser
  would give one record for it, and \<open>normalize_schedule\<close> gives none.
\<close>

theorem shape_detection_counterexample:
  "spec_detects_slotted (JList [second_pair_only])
   \<and> normalize_special_day_array basic_builtins [second_pair_only] =
       Inr [lecture_lesson w_odd ''10:20'' ''11:50'']
   \<and> normalize_schedule basic_builtins (JList [second_pair_only]) = Inr []"
  by code_simp

lemma has_key_iff: "has_key d k \<longleftrightarrow> k \<in> fst ` set d"
  by (simp add: has_key_def map_of_eq_None_iff)

lemma has_slot_keys_iff:
  "has_slot_keys v \<longleftrightarrow> (\<exists>x. v = JDict x \<and> (ascii ''n1'' \<in> fst ` set x \<or> ascii ''z1'' \<in> fst ` set x))"
  by (cases v) (simp_all add: has_key_iff)

text \<open>
  Claim C2, amended: the input takes the slotted-day path exactly when it is a
  list in which some dict element has the key \<open>n1\<close> or the key \<open>z1\<close>; then the
  output is the output of the slotted-day parser and nothing else; otherwise the
  output is that of the generic walker, with duplicates removed.
\<close>

theorem shape_detection:
  "(is_special raw \<longleftrightarrow>
      (\<exists>xs. raw = JList xs \<and>
         (\<exists>x. JDict x \<in> set xs \<and> (ascii ''n1'' \<in> fst ` set x \<or> ascii ''z1'' \<in> fst ` set x))))
   \<and> (is_special (JList xs) \<longrightarrow>
        normalize_schedule B (JList xs) = normalize_special_day_array B xs)
   \<and> (\<not> is_special raw \<longrightarrow>
        normalize_schedule B raw =
          (case walk B raw JNull JNull of
             Inl e \<Rightarrow> Inl e
           | Inr lessons \<Rightarrow> dedup_loop [] [] lessons))"
proof (intro conjI impI)
  show "is_special raw \<longleftrightarrow>
      (\<exists>xs. raw = JList xs \<and>
         (\<exists>x. JDict x \<in> set xs \<and> (ascii ''n1'' \<in> fst ` set x \<or> ascii ''z1'' \<in> fst ` set x)))"
  proof (cases raw)
    case (JList ys)
    then show ?thesis
      by (auto simp: list_ex_iff has_slot_keys_iff)
  qed simp_all
qed simp_all

text \<open>
  An instance of each case: a detected list whose element also has a \<open>Title\<close> key
  (the walker alone would give the record of that title; the output has only the
  slotted record), and the list of the object with the slot key \<open>n2\<close> only.
\<close>

theorem shape_detection_witness:
  "is_special (JList [monday_with_title])
   \<and> normalize_schedule basic_builtins (JList [monday_with_title]) =
       Inr [lecture_lesson w_odd ''08:30'' ''10:00'']
   \<and> walk basic_builtins (JList [monday_with_title]) JNull JNull =
       Inr [\<lparr>day = JNull, start = JNull, end_time = JNull, title = JStr (ascii ''X''),
             teacher = JNull, room = JNull, kind = JNull, week = w_all\<rparr>]
   \<and> \<not> is_special (JList [second_pair_only])
   \<and> normalize_schedule basic_builtins (JList [second_pair_only]) = Inr []"
proof -
  have e1: "is_special (JList [monday_with_title])"
    by code_simp
  have e2: "normalize_special_day_array basic_builtins [monday_with_title] =
       Inr [lecture_lesson w_odd ''08:30'' ''10:00'']"
    by code_simp
  have e3: "walk basic_builtins (JList [monday_with_title]) JNull JNull =
       Inr [\<lparr>day = JNull, start = JNull, end_time = JNull, title = JStr (ascii ''X''),
             teacher = JNull, room = JNull, kind = JNull, week = w_all\<rparr>]"
    by code_simp
  have e4: "\<not> is_special (JList [second_pair_only])"
    by code_simp
  have e5: "walk basic_builtins (JList [second_pair_only]) JNull JNull = Inr []"
    by code_simp
  from shape_detection [of "JList [monday_with_title]" "[monday_with_title]" basic_builtins] e1
  have "normalize_schedule basic_builtins (JList [monday_with_title]) =
      normalize_special_day_array basic_builtins [monday_with_title]"
    by blast
  then have r1: "normalize_schedule basic_builtins (JList [monday_with_title]) =
       Inr [lecture_lesson w_odd ''08:30'' ''10:00'']"
    by (simp only: e2)
  from shape_detection [of "JList [second_pair_only]" "[second_pair_only]" basic_builtins] e4
  have "normalize_schedule basic_builtins (JList [second_pair_only]) =
      (case walk basic_builtins (JList [second_pair_only]) JNull JNull of
         Inl e \<Rightarrow> Inl e
       | Inr lessons \<Rightarrow> dedup_loop [] [] lessons)"
    by blast
  then have r2: "normalize_schedule basic_builtins (JList [second_pair_only]) = Inr []"
    by (simp only: e5 sum.case dedup_loop.simps)
  from e1 r1 e3 e4 r2 show ?thesis
    by blast
qed

text \<open>
  Claim C4, as stated: the output of \<open>normalize_schedule\<close> never contains two records
  with equal keys. On the slotted-day path the records are returned as the parser
  built them: the same Monday object twice gives the same record twice.
\<close>

theorem slotted_duplicates_kept:
  "normalize_schedule basic_builtins monday_twice =
     Inr [lecture_lesson w_odd ''08:30'' ''10:00'', lecture_lesson w_odd ''08:30'' ''10:00'']
   \<and> key_eq (lesson_key (lecture_lesson w_odd ''08:30'' ''10:00''))
             (lesson_key (lecture_lesson w_odd ''08:30'' ''10:00''))"
  by code_simp

text \<open>
  Claim C6 says that the day of a dict node replaces the inherited day for
  everything beneath the node, also beneath its week-variant keys, whose week is
  forced. The loop over the week-variant keys passes the inherited day, and the
  loop over all values walks the same subtree again without the forced week: for
  \<open>{"Day": 2, "Numerator": [{"Title": "X"}]}\<close> the lesson comes out once with no day
  and week \<open>odd\<close>, and once with day 2 and week \<open>all\<close>, never with day 2 and week
  \<open>odd\<close>.
\<close>

theorem week_variant_keeps_inherited_day:
  "normalize_schedule basic_builtins day_with_numerator =
     Inr [\<lparr>day = JNull, start = JNull, end_time = JNull, title = JStr (ascii ''X''),
           teacher = JNull, room = JNull, kind = JNull, week = w_odd\<rparr>,
          \<lparr>day = JInt 2, start = JNull, end_time = JNull, title = JStr (ascii ''X''),
           teacher = JNull, room = JNull, kind = JNull, week = w_all\<rparr>]"
  by code_simp

lemma py_eq_refl: "py_eq a a"
  by (simp add: py_eq_def split: option.splits)

lemma key_eq_refl: "key_eq k k"
  by (simp add: key_eq_def list_all2_same py_eq_refl)

lemma keys_differ_snoc:
  assumes "keys_differ uniq" "\<forall>u \<in> set uniq. \<not> key_eq (lesson_key l) (lesson_key u)"
  shows "keys_differ (uniq @ [l])"
  unfolding keys_differ_def
proof (intro allI impI)
  fix i j
  assume ij: "i < j" "j < length (uniq @ [l])"
  show "\<not> key_eq (lesson_key ((uniq @ [l]) ! j)) (lesson_key ((uniq @ [l]) ! i))"
  proof (cases "j < length uniq")
    case True
    with ij assms(1) show ?thesis
      by (simp add: keys_differ_def nth_append)
  next
    case False
    with ij have j: "j = length uniq" and i: "i < length uniq"
      by simp_all
    from i have "uniq ! i \<in> set uniq"
      by simp
    with assms(2) j i show ?thesis
      by (simp add: nth_append)
  qed
qed

lemma dedup_keys_differ:
  "dedup_loop seen uniq ls = Inr out \<Longrightarrow> set seen = lesson_key ` set uniq \<Longrightarrow>
   keys_differ uniq \<Longrightarrow> keys_differ out"
proof (induction seen uniq ls rule: dedup_loop.induct)
  case (1 seen uniq)
  then show ?case by simp
next
  case (2 seen uniq l ls)
  show ?case
  proof (cases "list_ex (key_eq (lesson_key l)) seen")
    case True
    with "2.prems" "2.IH"(1) show ?thesis
      by (simp split: if_splits)
  next
    case False
    with "2.prems"(2) have "\<forall>u \<in> set uniq. \<not> key_eq (lesson_key l) (lesson_key u)"
      by (auto simp: list_ex_iff)
    with "2.prems"(3) have kd: "keys_differ (uniq @ [l])"
      by (rule keys_differ_snoc)
    from "2.prems"(2) have s: "set (lesson_key l # seen) = lesson_key ` set (uniq @ [l])"
      by auto
    from False "2.prems"(1) have h: "list_all hashable (lesson_key l)"
      "dedup_loop (lesson_key l # seen) (uniq @ [l]) ls = Inr out"
      by (simp_all split: if_splits)
    from "2.IH"(2) [OF _ False h(2) s kd] h(1) show ?thesis
      by simp
  qed
qed

lemma dedup_order:
  "dedup_loop seen uniq ls = Inr out \<Longrightarrow> \<exists>kept. out = uniq @ kept \<and> subseq kept ls"
proof (induction seen uniq ls rule: dedup_loop.induct)
  case (1 seen uniq)
  then show ?case by simp
next
  case (2 seen uniq l ls)
  show ?case
  proof (cases "list_ex (key_eq (lesson_key l)) seen")
    case True
    with "2.prems" "2.IH"(1) obtain kept where "out = uniq @ kept" "subseq kept ls"
      by (auto split: if_splits)
    then show ?thesis
      by auto
  next
    case False
    with "2.prems" have h: "list_all hashable (lesson_key l)"
      "dedup_loop (lesson_key l # seen) (uniq @ [l]) ls = Inr out"
      by (simp_all split: if_splits)
    from "2.IH"(2) [OF _ False h(2)] h(1) obtain kept where
      "out = (uniq @ [l]) @ kept" "subseq kept ls"
      by auto
    then have "out = uniq @ (l # kept)" "subseq (l # kept) (l # ls)"
      by simp_all
    then show ?thesis
      by blast
  qed
qed

lemma dedup_first_kept:
  "dedup_loop seen uniq ls = Inr out \<Longrightarrow> ls = pre @ l # post \<Longrightarrow>
   \<forall>k \<in> set seen. \<not> key_eq (lesson_key l) k \<Longrightarrow>
   \<forall>p \<in> set pre. \<not> key_eq (lesson_key l) (lesson_key p) \<Longrightarrow> l \<in> set out"
proof (induction seen uniq ls arbitrary: pre rule: dedup_loop.induct)
  case (1 seen uniq)
  then show ?case by simp
next
  case (2 seen uniq x ls)
  show ?case
  proof (cases pre)
    case Nil
    with "2.prems"(2) have x: "x = l" by simp
    with "2.prems"(3) have "\<not> list_ex (key_eq (lesson_key x)) seen"
      by (simp add: list_ex_iff)
    with "2.prems"(1) have "dedup_loop (lesson_key x # seen) (uniq @ [x]) ls = Inr out"
      by (simp split: if_splits)
    from dedup_order [OF this] x show ?thesis
      by auto
  next
    case (Cons p pre')
    with "2.prems"(2) have x: "x = p" and ls: "ls = pre' @ l # post"
      by simp_all
    from Cons "2.prems"(4) have np: "\<not> key_eq (lesson_key l) (lesson_key x)"
      and npre: "\<forall>p \<in> set pre'. \<not> key_eq (lesson_key l) (lesson_key p)"
      by (simp_all add: x)
    show ?thesis
    proof (cases "list_ex (key_eq (lesson_key x)) seen")
      case True
      with "2.prems"(1) have h: "list_all hashable (lesson_key x)" "dedup_loop seen uniq ls = Inr out"
        by (simp_all split: if_splits)
      from "2.IH"(1) [OF _ True h(2) ls "2.prems"(3) npre] h(1) show ?thesis
        by simp
    next
      case False
      with "2.prems"(1) have h: "list_all hashable (lesson_key x)"
        "dedup_loop (lesson_key x # seen) (uniq @ [x]) ls = Inr out"
        by (simp_all split: if_splits)
      from "2.prems"(3) np have "\<forall>k \<in> set (lesson_key x # seen). \<not> key_eq (lesson_key l) k"
        by simp
      from "2.IH"(2) [OF _ False h(2) ls this npre] h(1) show ?thesis
        by simp
    qed
  qed
qed

lemma py_eq_trans: "py_eq a b \<Longrightarrow> py_eq b c \<Longrightarrow> py_eq a c"
  by (auto simp: py_eq_def split: option.splits)

lemma key_eq_trans: "key_eq a b \<Longrightarrow> key_eq b c \<Longrightarrow> key_eq a c"
  unfolding key_eq_def by (rule list_all2_trans [OF py_eq_trans])

lemma dedup_first_occurrences:
  "dedup_loop seen uniq ls = Inr out \<Longrightarrow> set seen = lesson_key ` set uniq \<Longrightarrow>
   set uniq \<subseteq> set pre \<Longrightarrow>
   \<forall>p \<in> set pre. \<exists>u \<in> set uniq. key_eq (lesson_key p) (lesson_key u) \<Longrightarrow>
   out = uniq @ first_occurrences pre ls"
proof (induction seen uniq ls arbitrary: pre rule: dedup_loop.induct)
  case (1 seen uniq)
  then show ?case by simp
next
  case (2 seen uniq l ls)
  from "2.prems"(1) have h: "list_all hashable (lesson_key l)"
    by (simp split: if_splits)
  have same: "list_ex (key_eq (lesson_key l)) seen \<longleftrightarrow>
      list_ex (\<lambda>p. key_eq (lesson_key l) (lesson_key p)) pre"
  proof
    assume "list_ex (key_eq (lesson_key l)) seen"
    with "2.prems"(2) obtain u where "u \<in> set uniq" "key_eq (lesson_key l) (lesson_key u)"
      by (auto simp: list_ex_iff)
    with "2.prems"(3) show "list_ex (\<lambda>p. key_eq (lesson_key l) (lesson_key p)) pre"
      by (auto simp: list_ex_iff)
  next
    assume "list_ex (\<lambda>p. key_eq (lesson_key l) (lesson_key p)) pre"
    then obtain p where p: "p \<in> set pre" "key_eq (lesson_key l) (lesson_key p)"
      by (auto simp: list_ex_iff)
    with "2.prems"(4) obtain u where u: "u \<in> set uniq" "key_eq (lesson_key p) (lesson_key u)"
      by blast
    from key_eq_trans [OF p(2) u(2)] u(1) "2.prems"(2)
    show "list_ex (key_eq (lesson_key l)) seen"
      by (auto simp: list_ex_iff)
  qed
  show ?case
  proof (cases "list_ex (key_eq (lesson_key l)) seen")
    case True
    with "2.prems"(1) h have d: "dedup_loop seen uniq ls = Inr out"
      by simp
    from True "2.prems"(2) obtain u where "u \<in> set uniq" "key_eq (lesson_key l) (lesson_key u)"
      by (auto simp: list_ex_iff)
    with "2.prems"(4)
    have rep: "\<forall>p \<in> set (pre @ [l]). \<exists>u \<in> set uniq. key_eq (lesson_key p) (lesson_key u)"
      by auto
    from "2.prems"(3) have sub: "set uniq \<subseteq> set (pre @ [l])"
      by auto
    from "2.IH"(1) [OF _ True d "2.prems"(2) sub rep] h True same show ?thesis
      by simp
  next
    case False
    with "2.prems"(1) h have d: "dedup_loop (lesson_key l # seen) (uniq @ [l]) ls = Inr out"
      by simp
    from "2.prems"(2) have s: "set (lesson_key l # seen) = lesson_key ` set (uniq @ [l])"
      by auto
    from "2.prems"(3) have sub: "set (uniq @ [l]) \<subseteq> set (pre @ [l])"
      by auto
    from "2.prems"(4) key_eq_refl
    have rep: "\<forall>p \<in> set (pre @ [l]). \<exists>u \<in> set (uniq @ [l]). key_eq (lesson_key p) (lesson_key u)"
      by auto
    from "2.IH"(2) [OF _ False d s sub rep] h False same show ?thesis
      by simp
  qed
qed

lemma first_occurrences_snoc:
  "first_occurrences pre (ls @ [l]) =
     first_occurrences pre ls @
       (if list_ex (\<lambda>p. key_eq (lesson_key l) (lesson_key p)) (pre @ ls) then [] else [l])"
  by (induction ls arbitrary: pre) simp_all

lemma first_occurrences_index:
  "first_occurrences [] ls =
     map (\<lambda>i. ls ! i)
       (filter (\<lambda>i. \<forall>p \<in> set (take i ls). \<not> key_eq (lesson_key (ls ! i)) (lesson_key p))
          [0..<length ls])"
proof (induction ls rule: rev_induct)
  case Nil
  then show ?case by simp
next
  case (snoc l ls)
  let ?K = "\<lambda>xs i. \<forall>p \<in> set (take i xs). \<not> key_eq (lesson_key (xs ! i)) (lesson_key p)"
  have f: "filter (?K (ls @ [l])) [0..<length ls] = filter (?K ls) [0..<length ls]"
    by (rule filter_cong) (simp_all add: nth_append)
  have m: "map (\<lambda>i. (ls @ [l]) ! i) (filter (?K ls) [0..<length ls]) =
           map (\<lambda>i. ls ! i) (filter (?K ls) [0..<length ls])"
    by (rule map_cong) (simp_all add: nth_append)
  have last: "?K (ls @ [l]) (length ls) \<longleftrightarrow>
      \<not> list_ex (\<lambda>p. key_eq (lesson_key l) (lesson_key p)) ls"
    by (simp add: list_ex_iff)
  show ?case
    unfolding first_occurrences_snoc snoc.IH
    using f m last by (simp add: list_ex_iff)
qed

text \<open>
  Claim C4, amended: for every raw input that takes the generic path, the output is
  the list of the records of the walk, in the order of the walk, at exactly the
  positions whose record has no earlier record of the walk with an equal key (the
  first seen is kept, every later one is dropped); so it is a subsequence of the
  walk and no record of it has a key equal to the key of an earlier one.
\<close>

theorem generic_output_deduplicated:
  "\<not> is_special raw \<Longrightarrow> normalize_schedule B raw = Inr out \<Longrightarrow>
   \<exists>lessons. walk B raw JNull JNull = Inr lessons \<and>
     out = map (\<lambda>i. lessons ! i)
             (filter (\<lambda>i. \<forall>p \<in> set (take i lessons).
                          \<not> key_eq (lesson_key (lessons ! i)) (lesson_key p))
                [0..<length lessons]) \<and>
     subseq out lessons \<and>
     (\<forall>i j. i < j \<longrightarrow> j < length out \<longrightarrow>
        \<not> key_eq (lesson_key (out ! j)) (lesson_key (out ! i))) \<and>
     (\<forall>pre l post. lessons = pre @ l # post \<longrightarrow>
        (\<forall>p \<in> set pre. \<not> key_eq (lesson_key l) (lesson_key p)) \<longrightarrow> l \<in> set out)"
proof -
  assume "\<not> is_special raw" "normalize_schedule B raw = Inr out"
  then obtain ls where
    w: "walk B raw JNull JNull = Inr ls" and d: "dedup_loop [] [] ls = Inr out"
    by (auto split: sum.splits)
  from dedup_first_occurrences [OF d, of "[]"] have "out = first_occurrences [] ls"
    by simp
  then have "out = map (\<lambda>i. ls ! i)
             (filter (\<lambda>i. \<forall>p \<in> set (take i ls). \<not> key_eq (lesson_key (ls ! i)) (lesson_key p))
                [0..<length ls])"
    by (simp only: first_occurrences_index)
  moreover from dedup_order [OF d] have "subseq out ls"
    by simp
  moreover from dedup_keys_differ [OF d]
  have "\<forall>i j. i < j \<longrightarrow> j < length out \<longrightarrow> \<not> key_eq (lesson_key (out ! j)) (lesson_key (out ! i))"
    by (simp add: keys_differ_def)
  moreover have "\<forall>pre l post. ls = pre @ l # post \<longrightarrow>
        (\<forall>p \<in> set pre. \<not> key_eq (lesson_key l) (lesson_key p)) \<longrightarrow> l \<in> set out"
    using dedup_first_kept [OF d] by simp
  ultimately show ?thesis
    using w by blast
qed

text \<open>
  An instance: the walk reaches two lessons twice, in the order A, B, A, B; the
  output is A, B.
\<close>

theorem generic_output_deduplicated_witness:
  "\<not> is_special two_lessons_container
   \<and> walk basic_builtins two_lessons_container JNull JNull =
       Inr [titled_lesson ''A'', titled_lesson ''B'', titled_lesson ''A'', titled_lesson ''B'']
   \<and> normalize_schedule basic_builtins two_lessons_container =
       Inr [titled_lesson ''A'', titled_lesson ''B'']
   \<and> subseq [titled_lesson ''A'', titled_lesson ''B'']
        [titled_lesson ''A'', titled_lesson ''B'', titled_lesson ''A'', titled_lesson ''B'']"
proof -
  have e0: "\<not> is_special two_lessons_container"
    by code_simp
  have e1: "walk basic_builtins two_lessons_container JNull JNull =
       Inr [titled_lesson ''A'', titled_lesson ''B'', titled_lesson ''A'', titled_lesson ''B'']"
    by code_simp
  have e2: "normalize_schedule basic_builtins two_lessons_container =
       Inr [titled_lesson ''A'', titled_lesson ''B'']"
    by code_simp
  from generic_output_deduplicated [OF e0 e2] e1
  have "subseq [titled_lesson ''A'', titled_lesson ''B'']
        [titled_lesson ''A'', titled_lesson ''B'', titled_lesson ''A'', titled_lesson ''B'']"
    by auto
  with e0 e1 e2 show ?thesis
    by blast
qed

end
